theory Spec2Isabelle
  imports Main
begin

section \<open>Strings and characters\<close>

text \<open>
  The program is \<^verbatim>\<open>code_quality.py\<close>. Python strings are modelled as \<^typ>\<open>string\<close>,
  one \<^typ>\<open>char\<close> per code point, restricted to the code points below 256. On that
  range the character classes of the \<^verbatim>\<open>re\<close> module and of \<^verbatim>\<open>str\<close> are the following.
\<close>

abbreviation LF :: char where
  "LF \<equiv> CHR 0x0A"

definition isdigit :: "char \<Rightarrow> bool" where
  \<comment> \<open>\<^verbatim>\<open>\d\<close>: the decimal digits.\<close>
  "isdigit c = (c \<in> set ''0123456789'')"

definition isspace :: "char \<Rightarrow> bool" where
  \<comment> \<open>\<^verbatim>\<open>\s\<close> and \<^verbatim>\<open>str.isspace\<close>; \<^verbatim>\<open>\S\<close> is its complement.\<close>
  "isspace c = (c \<in> {CHR 0x09, CHR 0x0A, CHR 0x0B, CHR 0x0C, CHR 0x0D,
                       CHR 0x1C, CHR 0x1D, CHR 0x1E, CHR 0x1F, CHR 0x20, CHR 0x85, CHR 0xA0})"

definition islinebreak :: "char \<Rightarrow> bool" where
  \<comment> \<open>The line boundaries of \<^verbatim>\<open>str.splitlines\<close>.\<close>
  "islinebreak c = (c \<in> {CHR 0x0A, CHR 0x0B, CHR 0x0C, CHR 0x0D,
                           CHR 0x1C, CHR 0x1D, CHR 0x1E, CHR 0x85})"

fun splitlines_from :: "string \<Rightarrow> string \<Rightarrow> string list" where
  "splitlines_from cur [] = (if cur = [] then [] else [cur])"
| "splitlines_from cur (c # cs) =
     (if c = CHR 0x0D \<and> cs \<noteq> [] \<and> hd cs = CHR 0x0A then cur # splitlines_from [] (tl cs)
      else if islinebreak c then cur # splitlines_from [] cs
      else splitlines_from (cur @ [c]) cs)"

definition splitlines :: "string \<Rightarrow> string list" where
  \<comment> \<open>\<^verbatim>\<open>str.splitlines()\<close>: the lines without their line ends; \<^verbatim>\<open>\r\n\<close> is one line end,
      and a final line end opens no further line.\<close>
  "splitlines s = splitlines_from [] s"

definition strip :: "string \<Rightarrow> string" where
  \<comment> \<open>\<^verbatim>\<open>str.strip()\<close>\<close>
  "strip s = rev (dropWhile isspace (rev (dropWhile isspace s)))"

fun split_on :: "char \<Rightarrow> string \<Rightarrow> string list" where
  \<comment> \<open>\<^verbatim>\<open>str.split(sep)\<close> for a separator of one character.\<close>
  "split_on sep [] = [[]]"
| "split_on sep (c # cs) =
     (if c = sep then [] # split_on sep cs
      else (let r = split_on sep cs in (c # hd r) # tl r))"

fun join :: "string \<Rightarrow> string list \<Rightarrow> string" where
  \<comment> \<open>\<^verbatim>\<open>sep.join(xs)\<close>\<close>
  "join sep [] = []"
| "join sep [x] = x"
| "join sep (x # y # ys) = x @ sep @ join sep (y # ys)"

subsection \<open>Integers and their decimal form\<close>

datatype error =
    ValueError
  | OverflowError
  | UnicodeDecodeError
  | CalledProcessError int
  | OSError
  | SystemExit int

definition digit_val :: "char \<Rightarrow> int" where
  "digit_val c = int (of_char c) - 48"

definition decimal :: "string \<Rightarrow> int" where
  \<comment> \<open>The number that a string of decimal digits denotes.\<close>
  "decimal s = foldl (\<lambda>acc c. 10 * acc + digit_val c) 0 s"

definition int_max_str_digits :: int where
  \<comment> \<open>\<^verbatim>\<open>sys.get_int_max_str_digits()\<close>, at its default.\<close>
  "int_max_str_digits = 4300"

definition int_of_str :: "string \<Rightarrow> error + int" where
  \<comment> \<open>\<^verbatim>\<open>int(s)\<close> on a string of decimal digits: the interpreter raises \<^verbatim>\<open>ValueError\<close> when
      the string has more digits than the limit, leading zeros counted. Every string
      that is not one of digits is refused here (Python accepts a sign, surrounding
      blanks and underscores as well, so the model raises wherever Python does).\<close>
  "int_of_str s =
     (if s \<noteq> [] \<and> list_all isdigit s \<and> int (length s) \<le> int_max_str_digits then Inr (decimal s)
      else Inl ValueError)"

definition digit_char :: "nat \<Rightarrow> char" where
  "digit_char d = char_of (48 + d)"

fun str_nat :: "nat \<Rightarrow> string" where
  "str_nat n = (if n < 10 then [digit_char n] else str_nat (n div 10) @ [digit_char (n mod 10)])"

definition str_int :: "int \<Rightarrow> error + string" where
  \<comment> \<open>\<^verbatim>\<open>str(i)\<close>, which is what an f-string field prints for an integer; the same limit
      on the number of digits holds for this conversion, the sign not counted.\<close>
  "str_int i =
     (let ds = str_nat (nat \<bar>i\<bar>)
      in if int_max_str_digits < int (length ds) then Inl ValueError
         else Inr (if i < 0 then CHR ''-'' # ds else ds))"

section \<open>Paths\<close>

text \<open>
  \<^verbatim>\<open>pathlib.Path\<close> on a POSIX system. A path is its root (\<^verbatim>\<open>''\<close>, \<^verbatim>\<open>'/'\<close> or \<^verbatim>\<open>'//'\<close>) and
  the list of its components; empty components and \<^verbatim>\<open>'.'\<close> are dropped when the path is
  built, and two paths are equal when root and components are.
\<close>

datatype PurePath = PurePath (root: string) (tail: "string list")

definition splitroot :: "string \<Rightarrow> string \<times> string" where
  "splitroot p =
     (if take 1 p \<noteq> ''/'' then ([], p)
      else if take 1 (drop 1 p) \<noteq> ''/'' \<or> take 1 (drop 2 p) = ''/'' then (''/'', drop 1 p)
      else (take 2 p, drop 2 p))"

definition Path :: "string \<Rightarrow> PurePath" where
  "Path s = (let (rt, rel) = splitroot s
             in PurePath rt (filter (\<lambda>x. x \<noteq> [] \<and> x \<noteq> ''.'') (split_on CHR ''/'' rel)))"

definition str_path :: "PurePath \<Rightarrow> string" where
  \<comment> \<open>\<^verbatim>\<open>str(path)\<close>\<close>
  "str_path p = (let s = root p @ join ''/'' (tail p) in if s = [] then ''.'' else s)"

definition name :: "PurePath \<Rightarrow> string" where
  "name p = (if tail p = [] then [] else last (tail p))"

definition rfind :: "char \<Rightarrow> string \<Rightarrow> int" where
  \<comment> \<open>\<^verbatim>\<open>s.rfind(c)\<close>: the index of the last occurrence, or -1.\<close>
  "rfind c s = (if c \<in> set s then int (length s) - 1 - int (length (takeWhile (\<lambda>x. x \<noteq> c) (rev s)))
                else - 1)"

definition suffix :: "PurePath \<Rightarrow> string" where
  \<comment> \<open>\<^verbatim>\<open>path.suffix\<close>: the last component from its last dot on, when that dot is neither
      its first nor its last character. (From Python 3.14 on a final dot is a suffix of
      its own; no extension of the program is a single dot, so the checkers see the same
      files.)\<close>
  "suffix p = (let n = name p; i = rfind CHR ''.'' n
               in if 0 < i \<and> i < int (length n) - 1 then drop (nat i) n else [])"

section \<open>The diff parser\<close>

record slice =
  start :: int
  stop :: int
  step :: int

type_synonym changes = "(PurePath \<times> slice list) list"

text \<open>
  \<^verbatim>\<open>filename_regex = ^\+\+\+ (.*?/){n}(\S*)\<close>, applied with \<^verbatim>\<open>match\<close>. Each of the \<open>n\<close>
  repetitions of the lazy group ends at the next slash, with no newline before it; the
  second group then takes the longest run of non-blank characters, which may be empty.
  A later slash for a repetition can only succeed where the next one does, so the regex
  matches exactly when this scan does, and the second group is what the scan returns.
  The pattern compiles only for a repetition count below \<^verbatim>\<open>MAXREPEAT\<close>; \<^verbatim>\<open>parse_diff\<close>
  compiles it before it reads a line.
\<close>

definition MAXREPEAT :: int where
  \<comment> \<open>The constant of \<^verbatim>\<open>re\<close> on a 64-bit build: \<^verbatim>\<open>re.compile\<close> raises \<^verbatim>\<open>OverflowError\<close> for
      a repetition count that is not below it.\<close>
  "MAXREPEAT = 4294967295"

fun after_slash :: "string \<Rightarrow> string option" where
  "after_slash [] = None"
| "after_slash (c # cs) =
     (if c = CHR ''/'' then Some cs else if c = LF then None else after_slash cs)"

fun strip_segments :: "nat \<Rightarrow> string \<Rightarrow> string option" where
  "strip_segments 0 s = Some (takeWhile (\<lambda>c. \<not> isspace c) s)"
| "strip_segments (Suc n) s =
     (case after_slash s of None \<Rightarrow> None | Some rest \<Rightarrow> strip_segments n rest)"

definition filename_match :: "nat \<Rightarrow> string \<Rightarrow> string option" where
  \<comment> \<open>\<^verbatim>\<open>filename_regex.match(line)\<close>: \<open>None\<close>, or \<open>Some\<close> of \<^verbatim>\<open>match[2]\<close>.\<close>
  "filename_match n line =
     (if take 4 line = ''+++ '' then strip_segments n (drop 4 line) else None)"

text \<open>
  \<^verbatim>\<open>lineno_regex = ^@@.*?\+(\d+)(,(\d+))?\<close>. After \<^verbatim>\<open>@@\<close> the lazy \<^verbatim>\<open>.*?\<close> stops at the first
  \<^verbatim>\<open>+\<close> that a digit follows; the first group is the run of digits there, and the third
  is the run of digits after a comma, when a comma and a digit follow.
\<close>

definition lineno_groups :: "string \<Rightarrow> string \<times> string option" where
  "lineno_groups s =
     (let g1 = takeWhile isdigit s; r = dropWhile isdigit s
      in (g1, if take 1 r = '','' \<and> drop 1 r \<noteq> [] \<and> isdigit (hd (drop 1 r))
              then Some (takeWhile isdigit (drop 1 r)) else None))"

fun lineno_scan :: "string \<Rightarrow> (string \<times> string option) option" where
  "lineno_scan [] = None"
| "lineno_scan (c # cs) =
     (if c = CHR ''+'' \<and> cs \<noteq> [] \<and> isdigit (hd cs) then Some (lineno_groups cs)
      else if c = LF then None
      else lineno_scan cs)"

definition lineno_match :: "string \<Rightarrow> (string \<times> string option) option" where
  \<comment> \<open>\<^verbatim>\<open>lineno_regex.match(line)\<close>: \<open>None\<close>, or \<open>Some\<close> of \<^verbatim>\<open>(match[1], match[3])\<close>.\<close>
  "lineno_match line = (if take 2 line = ''@@'' then lineno_scan (drop 2 line) else None)"

fun setdefault_append :: "PurePath \<Rightarrow> slice \<Rightarrow> changes \<Rightarrow> changes" where
  \<comment> \<open>\<^verbatim>\<open>lines.setdefault(k, []).append(v)\<close> on a dictionary in insertion order.\<close>
  "setdefault_append k v [] = [(k, [v])]"
| "setdefault_append k v ((k', vs) # rest) =
     (if k = k' then (k', vs @ [v]) # rest else (k', vs) # setdefault_append k v rest)"

definition parse_line ::
  "nat \<Rightarrow> string \<Rightarrow> changes \<times> PurePath option \<Rightarrow> error + changes \<times> PurePath option" where
  \<comment> \<open>The body of the loop of \<^verbatim>\<open>parse_diff\<close> on the state \<^verbatim>\<open>(lines, current_file)\<close>.\<close>
  "parse_line n_path_strip line st =
     (let (lines, current_file) = st;
          current_file = (case filename_match n_path_strip line of
                            Some g2 \<Rightarrow> Some (Path g2)
                          | None \<Rightarrow> current_file)
      in case current_file of
           None \<Rightarrow> Inr (lines, current_file)
         | Some f \<Rightarrow>
             (case lineno_match line of
                None \<Rightarrow> Inr (lines, current_file)
              | Some (g1, g3) \<Rightarrow>
                  (case int_of_str g1 of
                     Inl e \<Rightarrow> Inl e
                   | Inr start_line \<Rightarrow>
                       (case (case g3 of
                                Some s \<Rightarrow> if s \<noteq> [] then int_of_str s else Inr 1
                              | None \<Rightarrow> Inr 1) of
                          Inl e \<Rightarrow> Inl e
                        | Inr n_lines \<Rightarrow>
                            if n_lines = 0 then Inr (lines, current_file)
                            else Inr (setdefault_append f
                                        \<lparr>start = start_line, stop = start_line + n_lines, step = 1\<rparr>
                                        lines,
                                      current_file)))))"

fun parse_lines ::
  "nat \<Rightarrow> string list \<Rightarrow> changes \<times> PurePath option \<Rightarrow> error + changes \<times> PurePath option" where
  "parse_lines n [] st = Inr st"
| "parse_lines n (l # ls) st =
     (case parse_line n l st of Inl e \<Rightarrow> Inl e | Inr st' \<Rightarrow> parse_lines n ls st')"

definition parse_diff :: "string \<Rightarrow> nat \<Rightarrow> error + changes" where
  "parse_diff diff n_path_strip =
     (if MAXREPEAT \<le> int n_path_strip then Inl OverflowError
      else case parse_lines n_path_strip (splitlines diff) ([], None) of
             Inl e \<Rightarrow> Inl e
           | Inr (lines, current_file) \<Rightarrow> Inr lines)"

definition within_int_limit :: "string \<Rightarrow> bool" where
  \<comment> \<open>A condition on a line of the input, not code of the program: the numbers that
      \<^verbatim>\<open>lineno_regex\<close> captures in it, if any, have no more digits than \<^verbatim>\<open>int\<close> converts.\<close>
  "within_int_limit line =
     (case lineno_match line of
        None \<Rightarrow> True
      | Some (g1, g3) \<Rightarrow>
          int (length g1) \<le> int_max_str_digits \<and>
          (case g3 of None \<Rightarrow> True | Some s \<Rightarrow> int (length s) \<le> int_max_str_digits))"

section \<open>External processes\<close>

text \<open>
  The program starts \<^verbatim>\<open>git\<close> and the checkers through \<^verbatim>\<open>subprocess\<close>. An invocation is
  the argument vector with the working directory; what a process does is given by an
  environment, a function of the invocations made so far and of the present one, so that
  the same command may answer differently later. A process either cannot be started,
  where \<^verbatim>\<open>subprocess\<close> raises (\<^verbatim>\<open>OSError\<close> for an executable that is not there;
  \<^verbatim>\<open>ValueError\<close> for an argument with a NUL byte, which the model does not tell from
  it), or exits with a return code and its standard output; the output is
  given as the text that \<^verbatim>\<open>decode('utf-8')\<close> makes of it, or as \<open>None\<close> when it is not
  valid UTF-8. The world records the invocations made and the lines that the program
  prints with \<^verbatim>\<open>print\<close> (what \<^verbatim>\<open>argparse\<close> writes itself is not recorded).
\<close>

type_synonym invocation = "string list \<times> string option"

datatype proc_result = Exited int "string option" | NotStarted

type_synonym env = "invocation list \<Rightarrow> invocation \<Rightarrow> proc_result"

record world =
  calls :: "invocation list"
  printed :: "string list"

definition spawn :: "env \<Rightarrow> invocation \<Rightarrow> world \<Rightarrow> proc_result \<times> world" where
  "spawn env c w = (env (calls w) c, w\<lparr>calls := calls w @ [c]\<rparr>)"

definition print :: "string \<Rightarrow> world \<Rightarrow> world" where
  "print msg w = w\<lparr>printed := printed w @ [msg]\<rparr>"

definition call_pipe ::
  "env \<Rightarrow> string list \<Rightarrow> string option \<Rightarrow> world \<Rightarrow> (error + string) \<times> world" where
  \<comment> \<open>\<^verbatim>\<open>subprocess.run(cmd, cwd=cwd, check=True, capture_output=True)\<close>, then the output
      decoded and stripped.\<close>
  "call_pipe env cmd cwd w =
     (case spawn env (cmd, cwd) w of
        (NotStarted, w') \<Rightarrow> (Inl OSError, w')
      | (Exited rc out, w') \<Rightarrow>
          if rc \<noteq> 0 then (Inl (CalledProcessError rc), w')
          else (case out of
                  None \<Rightarrow> (Inl UnicodeDecodeError, w')
                | Some text \<Rightarrow> (Inr (strip text), w')))"

definition check_call :: "env \<Rightarrow> string list \<Rightarrow> world \<Rightarrow> (error + unit) \<times> world" where
  \<comment> \<open>\<^verbatim>\<open>subprocess.check_call(argv)\<close>\<close>
  "check_call env argv w =
     (case spawn env (argv, None) w of
        (NotStarted, w') \<Rightarrow> (Inl OSError, w')
      | (Exited rc out, w') \<Rightarrow>
          if rc \<noteq> 0 then (Inl (CalledProcessError rc), w') else (Inr (), w'))"

definition run :: "env \<Rightarrow> string list \<Rightarrow> world \<Rightarrow> (error + unit) \<times> world" where
  \<comment> \<open>\<^verbatim>\<open>subprocess.run(argv)\<close> without \<^verbatim>\<open>check\<close>: the return code is not looked at.\<close>
  "run env argv w =
     (case spawn env (argv, None) w of
        (NotStarted, w') \<Rightarrow> (Inl OSError, w')
      | (Exited rc out, w') \<Rightarrow> (Inr (), w'))"

definition find_repo_root :: "env \<Rightarrow> world \<Rightarrow> (error + string) \<times> world" where
  "find_repo_root env w =
     (case call_pipe env [''git'', ''rev-parse'', ''--show-toplevel''] None w of
        (Inl (CalledProcessError rc), w') \<Rightarrow>
          (Inl (SystemExit 1),
           print ''Failed to determine git root directory. Is this a git repository?'' w')
      | (Inl e, w') \<Rightarrow> (Inl e, w')
      | (Inr out, w') \<Rightarrow> (Inr out, w'))"

definition get_diff :: "env \<Rightarrow> string \<Rightarrow> string \<Rightarrow> world \<Rightarrow> (error + string) \<times> world" where
  "get_diff env repo_root ref w =
     (case call_pipe env [''git'', ''branch'', ''--show-current''] (Some repo_root) w of
        (Inl e, w1) \<Rightarrow> (Inl e, w1)
      | (Inr current_branch, w1) \<Rightarrow>
          (case call_pipe env [''git'', ''merge-base'', ref, current_branch] (Some repo_root) w1 of
             (Inl e, w2) \<Rightarrow> (Inl e, w2)
           | (Inr base_commit, w2) \<Rightarrow>
               call_pipe env [''git'', ''diff'', ''-U0'', ''--no-color'', ''--relative'', base_commit]
                 (Some repo_root) w2))"

section \<open>Running the checkers\<close>

definition CPP_EXTENSIONS :: "string list" where
  "CPP_EXTENSIONS = [''.cpp'', ''.cc'', ''.cxx'', ''.hpp'', ''.hh'', ''.hxx'', ''.h'']"

definition PY_EXTENSIONS :: "string list" where
  "PY_EXTENSIONS = [''.py'']"

fun lines_args :: "string \<Rightarrow> slice list \<Rightarrow> error + string list" where
  \<comment> \<open>The list comprehension \<^verbatim>\<open>[f'--lines={l.start}{line_separator}{l.stop}' for l in lines]\<close>.\<close>
  "lines_args line_separator [] = Inr []"
| "lines_args line_separator (l # ls) =
     (case str_int (start l) of
        Inl e \<Rightarrow> Inl e
      | Inr a \<Rightarrow>
          (case str_int (stop l) of
             Inl e \<Rightarrow> Inl e
           | Inr b \<Rightarrow>
               (case lines_args line_separator ls of
                  Inl e \<Rightarrow> Inl e
                | Inr r \<Rightarrow> Inr ((''--lines='' @ a @ line_separator @ b) # r))))"

definition formatter_argv :: "string \<Rightarrow> PurePath \<Rightarrow> slice list \<Rightarrow> string \<Rightarrow> error + string list" where
  \<comment> \<open>The argument list that \<^verbatim>\<open>run_formatter\<close> builds for one file.\<close>
  "formatter_argv cmd fname lines line_separator =
     (case lines_args line_separator lines of
        Inl e \<Rightarrow> Inl e
      | Inr r \<Rightarrow> Inr ([cmd, str_path fname, ''-i''] @ r))"

fun run_formatter_files ::
  "env \<Rightarrow> string \<Rightarrow> string \<Rightarrow> changes \<Rightarrow> world \<Rightarrow> (error + unit) \<times> world" where
  "run_formatter_files env cmd line_separator [] w = (Inr (), w)"
| "run_formatter_files env cmd line_separator ((fname, lines) # rest) w =
     (case formatter_argv cmd fname lines line_separator of
        Inl e \<Rightarrow> (Inl e, w)
      | Inr argv \<Rightarrow>
          (case check_call env argv w of
             (Inl e, w') \<Rightarrow> (Inl e, w')
           | (Inr _, w') \<Rightarrow> run_formatter_files env cmd line_separator rest w'))"

definition run_formatter ::
  "env \<Rightarrow> string \<Rightarrow> changes \<Rightarrow> string list \<Rightarrow> string \<Rightarrow> world \<Rightarrow> (error + unit) \<times> world" where
  "run_formatter env cmd modified_lines extensions line_separator w =
     run_formatter_files env cmd line_separator
       (filter (\<lambda>t. suffix (fst t) \<in> set extensions) modified_lines) w"

fun run_flake8_files :: "env \<Rightarrow> string \<Rightarrow> PurePath list \<Rightarrow> world \<Rightarrow> (error + unit) \<times> world" where
  "run_flake8_files env cmd [] w = (Inr (), w)"
| "run_flake8_files env cmd (fname # rest) w =
     (case run env [cmd, str_path fname] w of
        (Inl e, w') \<Rightarrow> (Inl e, w')
      | (Inr _, w') \<Rightarrow> run_flake8_files env cmd rest w')"

definition run_flake8 :: "env \<Rightarrow> string \<Rightarrow> changes \<Rightarrow> world \<Rightarrow> (error + unit) \<times> world" where
  "run_flake8 env cmd modified_lines w =
     run_flake8_files env cmd
       (filter (\<lambda>fn. suffix fn \<in> set PY_EXTENSIONS) (map fst modified_lines)) w"

section \<open>Arguments and the main program\<close>

text \<open>
  The namespace that \<^verbatim>\<open>argparse\<close> returns: a flag is a truth value, an option with an
  optional value is \<open>None\<close> or a string, and a string counts as true when it is not
  empty. \<^verbatim>\<open>--prefix\<close> is taken as a natural number. \<^verbatim>\<open>parser.parse_args()\<close> itself is
  given by its outcome on the command line: it returns a namespace, or it rejects the
  command line and exits with 2, or it prints the help for \<^verbatim>\<open>--help\<close> and exits with 0.
\<close>

record args =
  py :: bool
  yapf :: "string option"
  flake8 :: "string option"
  cpp :: bool
  clang_format :: "string option"
  ref :: string
  prefix :: nat

datatype parsed = Namespace args | Usage | Help

definition truthy :: "string option \<Rightarrow> bool" where
  "truthy v = (case v of None \<Rightarrow> False | Some s \<Rightarrow> s \<noteq> [])"

definition parse_args :: "parsed \<Rightarrow> world \<Rightarrow> (error + args) \<times> world" where
  \<comment> \<open>\<open>p\<close> is the outcome of \<^verbatim>\<open>parser.parse_args()\<close> on the command line.\<close>
  "parse_args p w =
     (case p of
        Usage \<Rightarrow> (Inl (SystemExit 2), w)
      | Help \<Rightarrow> (Inl (SystemExit 0), w)
      | Namespace a \<Rightarrow>
          (let w = (if \<not> (py a \<or> truthy (yapf a) \<or> truthy (flake8 a) \<or> cpp a)
                    then print ''WARNING no checkers are enabled.'' w else w);
               a = (if py a
                    then (let a = (if \<not> truthy (yapf a) then a\<lparr>yapf := Some ''yapf''\<rparr> else a)
                          in if \<not> truthy (flake8 a) then a\<lparr>flake8 := Some ''flake8''\<rparr> else a)
                    else a);
               a = (if cpp a
                    then (if \<not> truthy (clang_format a)
                          then a\<lparr>clang_format := Some ''clang-format''\<rparr> else a)
                    else a)
           in (Inr a, w)))"

definition run_if ::
  "string option \<Rightarrow> (string \<Rightarrow> world \<Rightarrow> (error + unit) \<times> world) \<Rightarrow> world \<Rightarrow> (error + unit) \<times> world" where
  \<comment> \<open>\<^verbatim>\<open>if args.x: f(args.x, ...)\<close>\<close>
  "run_if opt f w =
     (case opt of
        Some cmd \<Rightarrow> if cmd \<noteq> [] then f cmd w else (Inr (), w)
      | None \<Rightarrow> (Inr (), w))"

definition run_checkers :: "env \<Rightarrow> args \<Rightarrow> changes \<Rightarrow> world \<Rightarrow> (error + unit) \<times> world" where
  \<comment> \<open>The three conditional calls that end \<^verbatim>\<open>main\<close>.\<close>
  "run_checkers env a modified_lines w =
     (case run_if (clang_format a)
             (\<lambda>cmd. run_formatter env cmd modified_lines CPP_EXTENSIONS '':'') w of
        (Inl e, w) \<Rightarrow> (Inl e, w)
      | (Inr _, w) \<Rightarrow>
          (case run_if (yapf a)
                  (\<lambda>cmd. run_formatter env cmd modified_lines PY_EXTENSIONS ''-'') w of
             (Inl e, w) \<Rightarrow> (Inl e, w)
           | (Inr _, w) \<Rightarrow> run_if (flake8 a) (\<lambda>cmd. run_flake8 env cmd modified_lines) w))"

definition main :: "env \<Rightarrow> parsed \<Rightarrow> world \<Rightarrow> (error + unit) \<times> world" where
  "main env p w =
     (case parse_args p w of
        (Inl e, w) \<Rightarrow> (Inl e, w)
      | (Inr a, w) \<Rightarrow>
          (case find_repo_root env w of
             (Inl e, w) \<Rightarrow> (Inl e, w)
           | (Inr repo_root, w) \<Rightarrow>
               (case get_diff env repo_root (ref a) w of
                  (Inl e, w) \<Rightarrow> (Inl e, w)
                | (Inr diff, w) \<Rightarrow>
                    (case parse_diff diff (prefix a) of
                       Inl e \<Rightarrow> (Inl e, w)
                     | Inr modified_lines \<Rightarrow> run_checkers env a modified_lines w))))"

definition exit_status :: "error + unit \<Rightarrow> int" where
  \<comment> \<open>The exit status of the interpreter: 0 when \<^verbatim>\<open>main\<close> returns, the argument of
      \<^verbatim>\<open>sys.exit\<close>, and 1 for any other exception that nothing catches.\<close>
  "exit_status r = (case r of Inr _ \<Rightarrow> 0 | Inl (SystemExit c) \<Rightarrow> c | Inl _ \<Rightarrow> 1)"

section \<open>Concrete runs\<close>

text \<open>
  Environments and inputs for the examples below. In \<open>scripted\<close> every \<^verbatim>\<open>git\<close> command
  succeeds, \<^verbatim>\<open>git diff\<close> prints the given text, and any other command exits with the
  code that \<open>rc\<close> gives for its argument vector. In \<open>no_repo\<close> every command exits
  with 128, as \<^verbatim>\<open>git rev-parse\<close> does outside a repository; in \<open>no_merge_base\<close> only
  \<^verbatim>\<open>git merge-base\<close> does, as for a reference that does not exist.
\<close>

definition scripted :: "string \<Rightarrow> (string list \<Rightarrow> int) \<Rightarrow> env" where
  "scripted diff rc h c =
     (if take 1 (fst c) = [''git'']
      then (if take 2 (fst c) = [''git'', ''diff''] then Exited 0 (Some diff)
            else if take 2 (fst c) = [''git'', ''rev-parse''] then Exited 0 (Some (''/repo'' @ [LF]))
            else if take 2 (fst c) = [''git'', ''branch''] then Exited 0 (Some (''topic'' @ [LF]))
            else Exited 0 (Some (''0a1b2c3'' @ [LF])))
      else Exited (rc (fst c)) (Some []))"

definition no_repo :: env where
  "no_repo h c = Exited 128 (Some [])"

definition no_flags :: args where
  \<comment> \<open>No checker flag; \<^verbatim>\<open>--ref\<close> at its default and \<^verbatim>\<open>--prefix 1\<close>, which strips \<^verbatim>\<open>b/\<close>.\<close>
  "no_flags = \<lparr>py = False, yapf = None, flake8 = None, cpp = False, clang_format = None,
                ref = ''main'', prefix = 1\<rparr>"

definition start_world :: world where
  "start_world = \<lparr>calls = [], printed = []\<rparr>"

definition sample_diff :: string where
  \<comment> \<open>Two Python files and a C++ file, one hunk each.\<close>
  "sample_diff =
     ''+++ b/a.py'' @ [LF] @ ''@@ -1,2 +3,4 @@'' @ [LF] @
     ''+++ b/c.py'' @ [LF] @ ''@@ -8 +9 @@'' @ [LF] @
     ''+++ b/d.cpp'' @ [LF] @ ''@@ -1 +1,2 @@'' @ [LF]"

definition sample_changes :: changes where
  \<comment> \<open>What \<^verbatim>\<open>parse_diff\<close> returns for \<open>sample_diff\<close> with one segment stripped.\<close>
  "sample_changes =
     [(Path ''a.py'', [\<lparr>start = 3, stop = 7, step = 1\<rparr>]),
      (Path ''c.py'', [\<lparr>start = 9, stop = 10, step = 1\<rparr>]),
      (Path ''d.cpp'', [\<lparr>start = 1, stop = 3, step = 1\<rparr>])]"

definition yapf_fails :: env where
  \<comment> \<open>\<^verbatim>\<open>yapf\<close> exits with 2, every other checker with 1.\<close>
  "yapf_fails = scripted sample_diff (\<lambda>argv. if take 1 argv = [''yapf''] then 2 else 1)"

definition all_exit :: "int \<Rightarrow> env" where
  \<comment> \<open>Every checker exits with the given code.\<close>
  "all_exit rc = scripted sample_diff (\<lambda>argv. rc)"

definition no_merge_base :: env where
  "no_merge_base h c =
     (if take 2 (fst c) = [''git'', ''merge-base''] then Exited 128 (Some [])
      else scripted sample_diff (\<lambda>argv. 0) h c)"

section \<open>Digits and the hunk pattern\<close>

text \<open>
  A string of digits within the limit converts to a number that is not negative, a
  longer one raises, and both groups that \<^verbatim>\<open>lineno_regex\<close> captures are non-empty
  strings of digits.
\<close>

lemma isdigit_digit_val: "isdigit c \<Longrightarrow> 0 \<le> digit_val c \<and> digit_val c \<le> 9"
  by (auto simp: isdigit_def digit_val_def)

lemma decimal_nonneg:
  "list_all isdigit s \<Longrightarrow> 0 \<le> acc \<Longrightarrow> 0 \<le> foldl (\<lambda>acc c. 10 * acc + digit_val c) acc s"
proof (induction s arbitrary: acc)
  case Nil
  then show ?case by simp
next
  case (Cons c s)
  from Cons.prems have "0 \<le> 10 * acc + digit_val c"
    using isdigit_digit_val [of c] by simp
  with Cons show ?case by simp
qed

lemma int_of_str_digits:
  assumes "s \<noteq> []" and "list_all isdigit s" and "int (length s) \<le> int_max_str_digits"
  shows "int_of_str s = Inr (decimal s) \<and> 0 \<le> decimal s"
  using assms decimal_nonneg [of s 0] by (simp add: int_of_str_def decimal_def)

lemma int_of_str_long:
  "int_max_str_digits < int (length s) \<Longrightarrow> int_of_str s = Inl ValueError"
  by (simp add: int_of_str_def)

lemma int_of_str_value:
  "int_of_str s = Inr v \<Longrightarrow> v = decimal s \<and> 0 \<le> v"
  using decimal_nonneg [of s 0] by (auto simp: int_of_str_def decimal_def split: if_splits)

lemma int_of_str_error:
  "int_of_str s = Inl e \<Longrightarrow> e = ValueError"
  by (auto simp: int_of_str_def split: if_splits)

lemma takeWhile_isdigit_all: "list_all isdigit (takeWhile isdigit s)"
  by (induction s) auto

lemma takeWhile_isdigit_nonempty: "s \<noteq> [] \<Longrightarrow> isdigit (hd s) \<Longrightarrow> takeWhile isdigit s \<noteq> []"
  by (cases s) auto

lemma lineno_groups_digits:
  assumes "s \<noteq> []" and "isdigit (hd s)" and "lineno_groups s = (g1, g3)"
  shows "g1 \<noteq> [] \<and> list_all isdigit g1 \<and> (\<forall>x. g3 = Some x \<longrightarrow> x \<noteq> [] \<and> list_all isdigit x)"
  using assms
  by (auto simp: lineno_groups_def Let_def takeWhile_isdigit_all takeWhile_isdigit_nonempty
           split: if_splits)

lemma lineno_scan_digits:
  "lineno_scan s = Some (g1, g3) \<Longrightarrow>
   g1 \<noteq> [] \<and> list_all isdigit g1 \<and> (\<forall>x. g3 = Some x \<longrightarrow> x \<noteq> [] \<and> list_all isdigit x)"
proof (induction s)
  case Nil
  then show ?case by simp
next
  case (Cons c cs)
  show ?case
  proof (cases "c = CHR ''+'' \<and> cs \<noteq> [] \<and> isdigit (hd cs)")
    case True
    with Cons.prems have "lineno_groups cs = (g1, g3)" by simp
    with True show ?thesis using lineno_groups_digits by blast
  next
    case False
    with Cons.prems have "lineno_scan cs = Some (g1, g3)" by (auto split: if_splits)
    then show ?thesis by (rule Cons.IH)
  qed
qed

lemma lineno_match_digits:
  "lineno_match line = Some (g1, g3) \<Longrightarrow>
   g1 \<noteq> [] \<and> list_all isdigit g1 \<and> (\<forall>x. g3 = Some x \<longrightarrow> x \<noteq> [] \<and> list_all isdigit x)"
  by (auto simp: lineno_match_def dest: lineno_scan_digits split: if_splits)

lemma lineno_match_not_filename:
  "lineno_match line = Some g \<Longrightarrow> filename_match n line = None"
  by (cases line rule: list.exhaust; cases "tl line")
     (auto simp: lineno_match_def filename_match_def split: if_splits)

lemma lineno_scan_skip:
  "CHR ''+'' \<notin> set old \<Longrightarrow> LF \<notin> set old \<Longrightarrow> lineno_scan (old @ s) = lineno_scan s"
  by (induction old) auto

lemma lineno_groups_no_count:
  assumes "list_all isdigit N"
  shows "lineno_groups (N @ '' @@'' @ rest) = (N, None)"
proof -
  have sp: "\<not> isdigit (CHR '' '')" by (simp add: isdigit_def)
  from assms have all: "\<forall>c \<in> set N. isdigit c" by (simp add: list_all_iff)
  have t: "takeWhile isdigit (N @ CHR '' '' # ''@@'' @ rest) = N"
    using sp all by (simp add: takeWhile_tail)
  have d: "dropWhile isdigit (N @ CHR '' '' # ''@@'' @ rest) = CHR '' '' # ''@@'' @ rest"
    using sp all by (simp add: dropWhile_append3)
  show ?thesis
    using t d by (simp add: lineno_groups_def)
qed

lemma lineno_match_no_count:
  assumes "CHR ''+'' \<notin> set old" and "LF \<notin> set old" and "N \<noteq> []" and "list_all isdigit N"
  shows "lineno_match (''@@'' @ old @ ''+'' @ N @ '' @@'' @ rest) = Some (N, None)"
proof -
  have "lineno_match (''@@'' @ old @ ''+'' @ N @ '' @@'' @ rest)
        = lineno_scan (old @ CHR ''+'' # N @ '' @@'' @ rest)"
    by (simp add: lineno_match_def)
  also have "\<dots> = lineno_scan (CHR ''+'' # N @ '' @@'' @ rest)"
    using assms(1,2) by (rule lineno_scan_skip)
  also have "\<dots> = Some (lineno_groups (N @ '' @@'' @ rest))"
    using assms(3,4) by (cases N) simp_all
  also have "\<dots> = Some (N, None)"
    using assms(4) by (simp only: lineno_groups_no_count)
  finally show ?thesis .
qed

section \<open>One line of the diff\<close>

text \<open>
  The state is a pair, so the loop body is restated on \<open>(lines, cur)\<close>. A line that is
  processed leaves the mapping as it is or appends one range whose end lies after its
  start, and ranges once recorded stay; the only exception a line can raise is the
  \<^verbatim>\<open>ValueError\<close> of a number with too many digits.
\<close>

lemma parse_line_cases:
  "parse_line n line (lines, cur) =
     (let cur' = (case filename_match n line of Some g2 \<Rightarrow> Some (Path g2) | None \<Rightarrow> cur)
      in case cur' of
           None \<Rightarrow> Inr (lines, cur')
         | Some f \<Rightarrow>
             (case lineno_match line of
                None \<Rightarrow> Inr (lines, cur')
              | Some (g1, g3) \<Rightarrow>
                  (case int_of_str g1 of
                     Inl e \<Rightarrow> Inl e
                   | Inr start_line \<Rightarrow>
                       (case (case g3 of
                                Some s \<Rightarrow> if s \<noteq> [] then int_of_str s else Inr 1
                              | None \<Rightarrow> Inr 1) of
                          Inl e \<Rightarrow> Inl e
                        | Inr n_lines \<Rightarrow>
                            if n_lines = 0 then Inr (lines, cur')
                            else Inr (setdefault_append f
                                        \<lparr>start = start_line, stop = start_line + n_lines, step = 1\<rparr>
                                        lines,
                                      cur')))))"
  by (simp add: parse_line_def)

lemma parse_line_result:
  assumes "parse_line n line (lines, cur) = Inr (lines', cur')"
  shows "lines' = lines \<or>
         (\<exists>f s c. 0 \<le> s \<and> 0 < c \<and>
            lines' = setdefault_append f \<lparr>start = s, stop = s + c, step = 1\<rparr> lines)"
proof -
  define cur1 where "cur1 = (case filename_match n line of Some g2 \<Rightarrow> Some (Path g2) | None \<Rightarrow> cur)"
  show ?thesis
  proof (cases cur1)
    case None
    with assms show ?thesis unfolding parse_line_cases cur1_def [symmetric] by simp
  next
    case (Some f)
    show ?thesis
    proof (cases "lineno_match line")
      case None
      with Some assms show ?thesis unfolding parse_line_cases cur1_def [symmetric] by simp
    next
      case m: (Some g)
      obtain g1 g3 where g: "g = (g1, g3)" by (cases g)
      let ?count = "case g3 of Some s \<Rightarrow> if s \<noteq> [] then int_of_str s else Inr 1 | None \<Rightarrow> Inr 1"
      from assms Some m g obtain s where s: "int_of_str g1 = Inr s"
        unfolding parse_line_cases cur1_def [symmetric] by (cases "int_of_str g1") auto
      from assms Some m g s obtain c where c: "?count = Inr c"
        unfolding parse_line_cases cur1_def [symmetric] by (cases ?count) auto
      from s have s0: "0 \<le> s" by (simp add: int_of_str_value)
      from c have c0: "0 \<le> c"
        by (auto split: option.splits if_splits dest: int_of_str_value)
      show ?thesis
      proof (cases "c = 0")
        case True
        with assms Some m g s c show ?thesis
          unfolding parse_line_cases cur1_def [symmetric] by simp
      next
        case False
        with c0 have "0 < c" by simp
        with assms Some m g s c False s0 show ?thesis
          unfolding parse_line_cases cur1_def [symmetric] by fastforce
      qed
    qed
  qed
qed

lemma parse_line_error:
  "parse_line n line (lines, cur) = Inl e \<Longrightarrow> e = ValueError"
  unfolding parse_line_cases
  by (auto simp: Let_def split: option.splits sum.splits if_splits prod.splits dest: int_of_str_error)

lemma parse_line_total:
  assumes "within_int_limit line"
  shows "\<exists>st'. parse_line n line st = Inr st'"
proof -
  obtain lines cur where st: "st = (lines, cur)" by (cases st)
  show ?thesis
  proof (cases "lineno_match line")
    case None
    then show ?thesis unfolding st parse_line_cases by (simp add: Let_def split: option.splits)
  next
    case (Some g)
    obtain g1 g3 where g: "g = (g1, g3)" by (cases g)
    from Some g have d: "g1 \<noteq> []" "list_all isdigit g1"
      "\<And>x. g3 = Some x \<Longrightarrow> x \<noteq> [] \<and> list_all isdigit x"
      using lineno_match_digits [of line g1 g3] by auto
    from assms Some g have l: "int (length g1) \<le> int_max_str_digits"
      "\<And>x. g3 = Some x \<Longrightarrow> int (length x) \<le> int_max_str_digits"
      by (auto simp: within_int_limit_def)
    from d l have s: "int_of_str g1 = Inr (decimal g1)"
      by (simp add: int_of_str_digits)
    have c: "\<exists>c. (case g3 of Some s \<Rightarrow> if s \<noteq> [] then int_of_str s else Inr 1 | None \<Rightarrow> Inr 1) = Inr c"
    proof (cases g3)
      case None
      then show ?thesis by simp
    next
      case (Some x)
      with d(3) l(2) int_of_str_digits [of x] show ?thesis by auto
    qed
    then obtain c where c: "(case g3 of Some s \<Rightarrow> if s \<noteq> [] then int_of_str s else Inr 1 | None \<Rightarrow> Inr 1) = Inr c"
      by blast
    from Some g s c show ?thesis
      unfolding st parse_line_cases by (simp add: Let_def split: option.splits)
  qed
qed

lemma parse_line_no_count:
  assumes "lineno_match line = Some (N, None)" and "int (length N) \<le> int_max_str_digits"
  shows "parse_line n line (lines, Some f)
         = Inr (setdefault_append f \<lparr>start = decimal N, stop = decimal N + 1, step = 1\<rparr> lines, Some f)"
proof -
  from assms(1) have "filename_match n line = None"
    by (rule lineno_match_not_filename)
  moreover from assms have "int_of_str N = Inr (decimal N)"
    using lineno_match_digits [of line N None] by (simp add: int_of_str_digits)
  ultimately show ?thesis
    using assms(1) by (simp only: parse_line_cases) simp
qed

lemma parse_line_long_start:
  assumes "lineno_match line = Some (g1, g3)" and "int_max_str_digits < int (length g1)"
  shows "parse_line n line (lines, Some f) = Inl ValueError"
proof -
  from assms(1) have "filename_match n line = None"
    by (rule lineno_match_not_filename)
  moreover from assms(2) have "int_of_str g1 = Inl ValueError"
    by (rule int_of_str_long)
  ultimately show ?thesis
    using assms(1) by (simp only: parse_line_cases) simp
qed

lemma setdefault_append_ranges:
  assumes "\<forall>(f, rs) \<in> set m. rs \<noteq> [] \<and> (\<forall>r \<in> set rs. start r < stop r)"
    and "start v < stop v"
  shows "\<forall>(f, rs) \<in> set (setdefault_append k v m). rs \<noteq> [] \<and> (\<forall>r \<in> set rs. start r < stop r)"
  using assms by (induction m) (fastforce split: if_splits)+

lemma setdefault_append_keys:
  "map fst (setdefault_append k v m) = (if k \<in> fst ` set m then map fst m else map fst m @ [k])"
  by (induction m) force+

lemma setdefault_append_distinct:
  "distinct (map fst m) \<Longrightarrow> distinct (map fst (setdefault_append k v m))"
  by (simp add: setdefault_append_keys)

lemma setdefault_append_recorded:
  "\<exists>rs. (k, rs @ [v]) \<in> set (setdefault_append k v m)"
  by (induction m) auto

lemma setdefault_append_keeps:
  "(f, rs) \<in> set m \<Longrightarrow> \<exists>rs'. (f, rs @ rs') \<in> set (setdefault_append k v m)"
proof (induction m)
  case Nil
  then show ?case by simp
next
  case (Cons a m)
  obtain k' vs where a: "a = (k', vs)" by (cases a)
  show ?case
  proof (cases "k = k'")
    case True
    show ?thesis
    proof (cases "(f, rs) = a")
      case True
      with \<open>k = k'\<close> a have "(f, rs @ [v]) \<in> set (setdefault_append k v (a # m))" by simp
      then show ?thesis by blast
    next
      case False
      with Cons.prems have "(f, rs) \<in> set m" by simp
      with True a have "(f, rs @ []) \<in> set (setdefault_append k v (a # m))" by simp
      then show ?thesis by blast
    qed
  next
    case False
    show ?thesis
    proof (cases "(f, rs) = a")
      case True
      with False a have "(f, rs @ []) \<in> set (setdefault_append k v (a # m))" by simp
      then show ?thesis by blast
    next
      case ne: False
      with Cons.prems have "(f, rs) \<in> set m" by simp
      then obtain rs' where "(f, rs @ rs') \<in> set (setdefault_append k v m)"
        using Cons.IH by blast
      with False a have "(f, rs @ rs') \<in> set (setdefault_append k v (a # m))" by simp
      then show ?thesis by blast
    qed
  qed
qed

lemma parse_lines_ranges:
  assumes "\<forall>(f, rs) \<in> set lines. rs \<noteq> [] \<and> (\<forall>r \<in> set rs. start r < stop r)"
    and "distinct (map fst lines)"
    and "parse_lines n ls (lines, cur) = Inr (lines', cur')"
  shows "(\<forall>(f, rs) \<in> set lines'. rs \<noteq> [] \<and> (\<forall>r \<in> set rs. start r < stop r)) \<and>
         distinct (map fst lines')"
  using assms
proof (induction ls arbitrary: lines cur)
  case Nil
  then show ?case by simp
next
  case (Cons l ls)
  from Cons.prems(3) obtain lines1 cur1 where step: "parse_line n l (lines, cur) = Inr (lines1, cur1)"
    and rest: "parse_lines n ls (lines1, cur1) = Inr (lines', cur')"
    by (cases "parse_line n l (lines, cur)") auto
  from step have shape: "lines1 = lines \<or>
      (\<exists>f s c. 0 \<le> s \<and> 0 < c \<and>
         lines1 = setdefault_append f \<lparr>start = s, stop = s + c, step = 1\<rparr> lines)"
    by (rule parse_line_result)
  from shape
  have inv1: "\<forall>(f, rs) \<in> set lines1. rs \<noteq> [] \<and> (\<forall>r \<in> set rs. start r < stop r)"
  proof
    assume "lines1 = lines"
    with Cons.prems show ?thesis by simp
  next
    assume "\<exists>f s c. 0 \<le> s \<and> 0 < c \<and>
         lines1 = setdefault_append f \<lparr>start = s, stop = s + c, step = 1\<rparr> lines"
    then obtain f s c where "0 < c"
      and l1: "lines1 = setdefault_append f \<lparr>start = s, stop = s + c, step = 1\<rparr> lines"
      by blast
    then have "start \<lparr>start = s, stop = s + c, step = 1\<rparr> < stop \<lparr>start = s, stop = s + c, step = 1\<rparr>"
      by simp
    with Cons.prems(1) show ?thesis unfolding l1 by (rule setdefault_append_ranges)
  qed
  from shape Cons.prems(2) have d1: "distinct (map fst lines1)"
    by (auto simp: setdefault_append_distinct)
  from inv1 d1 rest show ?case by (rule Cons.IH)
qed

lemma parse_lines_total:
  "list_all within_int_limit ls \<Longrightarrow> \<exists>st'. parse_lines n ls st = Inr st'"
proof (induction ls arbitrary: st)
  case Nil
  then show ?case by simp
next
  case (Cons l ls)
  then obtain st1 where "parse_line n l st = Inr st1"
    using parse_line_total [of l n st] by auto
  moreover from Cons.prems have "list_all within_int_limit ls" by simp
  then obtain st' where "parse_lines n ls st1 = Inr st'"
    using Cons.IH [of st1] by blast
  ultimately show ?case by simp
qed

lemma parse_lines_error:
  "parse_lines n ls st = Inl e \<Longrightarrow> e = ValueError"
proof (induction ls arbitrary: st)
  case Nil
  then show ?case by simp
next
  case (Cons l ls)
  obtain lines cur where st: "st = (lines, cur)" by (cases st)
  show ?case
  proof (cases "parse_line n l st")
    case (Inl e1)
    with Cons.prems have "e = e1" by simp
    with Inl st show ?thesis using parse_line_error by blast
  next
    case (Inr st1)
    with Cons.prems have "parse_lines n ls st1 = Inl e" by simp
    then show ?thesis by (rule Cons.IH)
  qed
qed

lemma parse_lines_keeps:
  "parse_lines n ls (m, c) = Inr (m', c') \<Longrightarrow> (f, rs) \<in> set m \<Longrightarrow>
   \<exists>rs'. (f, rs @ rs') \<in> set m'"
proof (induction ls arbitrary: m c rs)
  case Nil
  then have "(f, rs @ []) \<in> set m'" by simp
  then show ?case by blast
next
  case (Cons l ls)
  from Cons.prems(1) obtain m1 c1 where step: "parse_line n l (m, c) = Inr (m1, c1)"
    and rest: "parse_lines n ls (m1, c1) = Inr (m', c')"
    by (cases "parse_line n l (m, c)") auto
  from step have "m1 = m \<or>
      (\<exists>g s k. 0 \<le> s \<and> 0 < k \<and> m1 = setdefault_append g \<lparr>start = s, stop = s + k, step = 1\<rparr> m)"
    by (rule parse_line_result)
  with Cons.prems(2) obtain rs1 where "(f, rs @ rs1) \<in> set m1"
    using setdefault_append_keeps [of f rs m] by (metis append_Nil2)
  with rest obtain rs2 where "(f, (rs @ rs1) @ rs2) \<in> set m'"
    using Cons.IH by blast
  then have "(f, rs @ (rs1 @ rs2)) \<in> set m'" by simp
  then show ?case by blast
qed

lemma parse_lines_append:
  "parse_lines n pre st = Inr st1 \<Longrightarrow> parse_lines n (pre @ post) st = parse_lines n post st1"
  by (induction pre arbitrary: st) (auto split: sum.splits)

lemma parse_line_no_file:
  "filename_match n l = None \<Longrightarrow> parse_line n l (lines, None) = Inr (lines, None)"
  by (simp add: parse_line_cases)

lemma parse_lines_no_file:
  "\<forall>l \<in> set pre. filename_match n l = None \<Longrightarrow>
   parse_lines n (pre @ rest) (lines, None) = parse_lines n rest (lines, None)"
  by (induction pre) (simp_all add: parse_line_no_file)

lemma after_slash_count:
  "after_slash s = Some rest \<Longrightarrow> count_list s (CHR ''/'') = Suc (count_list rest (CHR ''/''))"
  by (induction s) (auto split: if_splits)

lemma strip_segments_too_few:
  "count_list p (CHR ''/'') < n \<Longrightarrow> strip_segments n p = None"
proof (induction n arbitrary: p)
  case 0
  then show ?case by simp
next
  case (Suc n)
  show ?case
  proof (cases "after_slash p")
    case None
    then show ?thesis by simp
  next
    case (Some rest)
    with Suc.prems have "count_list rest (CHR ''/'') < n"
      by (simp add: after_slash_count)
    with Some Suc.IH show ?thesis by simp
  qed
qed

lemma parse_line_header_unmatched:
  assumes "strip_segments n p = None"
  shows "parse_line n (''+++ '' @ p) st = Inr st"
proof -
  have "filename_match n (''+++ '' @ p) = None"
    using assms by (simp add: filename_match_def)
  moreover have "lineno_match (''+++ '' @ p) = None"
    by (simp add: lineno_match_def)
  ultimately show ?thesis
    by (cases st) (simp add: parse_line_cases split: option.splits)
qed

lemma splitlines_from_line:
  "\<forall>c \<in> set l. \<not> islinebreak c \<Longrightarrow>
   splitlines_from cur (l @ LF # rest) = (cur @ l) # splitlines_from [] rest"
proof (induction l arbitrary: cur)
  case Nil
  then show ?case by (simp add: islinebreak_def)
next
  case (Cons c l)
  then have "c \<noteq> CHR 0x0D" by (auto simp: islinebreak_def)
  with Cons show ?case by simp
qed

lemma splitlines_from_last:
  "\<forall>c \<in> set l. \<not> islinebreak c \<Longrightarrow> cur @ l \<noteq> [] \<Longrightarrow> splitlines_from cur l = [cur @ l]"
proof (induction l arbitrary: cur)
  case Nil
  then show ?case by simp
next
  case (Cons c l)
  then have "c \<noteq> CHR 0x0D" by (auto simp: islinebreak_def)
  with Cons show ?case by simp
qed

lemma splitlines_two:
  assumes "\<forall>c \<in> set h. \<not> islinebreak c" and "\<forall>c \<in> set l. \<not> islinebreak c" and "l \<noteq> []"
  shows "splitlines (h @ LF # l) = [h, l]"
  using assms by (simp add: splitlines_def splitlines_from_line splitlines_from_last)

lemma long_start_raises:
  assumes "\<forall>c \<in> set h. \<not> islinebreak c" and "\<forall>c \<in> set l. \<not> islinebreak c" and "l \<noteq> []"
    and "int n < MAXREPEAT"
    and "parse_line n h ([], None) = Inr (lines, Some f)"
    and "lineno_match l = Some (g1, g3)" and "int_max_str_digits < int (length g1)"
  shows "parse_diff (h @ LF # l) n = Inl ValueError"
proof -
  have "splitlines (h @ LF # l) = [h, l]"
    using assms(1-3) by (rule splitlines_two)
  moreover have "parse_line n l (lines, Some f) = Inl ValueError"
    using assms(6,7) by (rule parse_line_long_start)
  ultimately show ?thesis
    using assms(4,5) by (simp add: parse_diff_def)
qed

section \<open>The end-to-end scenario\<close>

text \<open>
  Claim C1, as amended. For the diff text \<^verbatim>\<open>"+++ b/a/b/file.py\n@@ -1,2 +3,4 @@\n"\<close> and
  a strip count of 1, \<^verbatim>\<open>parse_diff\<close> returns a mapping with exactly one file path,
  \<^verbatim>\<open>a/b/file.py\<close>, mapped to the single range from 3 to 7 (exclusive): one leading
  segment, \<^verbatim>\<open>b/\<close>, is stripped from the header path.
\<close>

theorem parse_diff_scenario:
  "parse_diff (''+++ b/a/b/file.py'' @ [LF] @ ''@@ -1,2 +3,4 @@'' @ [LF]) 1
   = Inr [(Path ''a/b/file.py'', [\<lparr>start = 3, stop = 7, step = 1\<rparr>])]"
  by code_simp

text \<open>
  The path of the result is not \<^verbatim>\<open>b/file.py\<close>, which is what the scenario of C1 states:
  that path needs a strip count of 2.
\<close>

theorem parse_diff_scenario_counterexample:
  "parse_diff (''+++ b/a/b/file.py'' @ [LF] @ ''@@ -1,2 +3,4 @@'' @ [LF]) 1
   \<noteq> Inr [(Path ''b/file.py'', [\<lparr>start = 3, stop = 7, step = 1\<rparr>])]"
  by code_simp

section \<open>Header lines with too few segments\<close>

text \<open>
  Claim C3, as amended. A new-file header line with fewer path segments than the strip
  count does not match \<^verbatim>\<open>filename_regex\<close> and is processed as if it were not there: the
  current file keeps the value it had. If no file was established before, it stays
  unset and the hunk headers that follow record nothing; if an earlier header
  established a file, the hunks that follow are recorded for that earlier file. The
  path of such a header is never added to the result by that line.
\<close>

theorem header_too_short_ignored:
  assumes "count_list p (CHR ''/'') < n"
  shows "parse_line n (''+++ '' @ p) st = Inr st \<and>
         parse_lines n ((''+++ '' @ p) # ls) st = parse_lines n ls st"
proof -
  from assms have "strip_segments n p = None"
    by (rule strip_segments_too_few)
  then have "parse_line n (''+++ '' @ p) st = Inr st"
    by (rule parse_line_header_unmatched)
  then show ?thesis by simp
qed

text \<open>
  An instance: with a strip count of 1 the header \<^verbatim>\<open>+++ y.py\<close> changes neither a set nor
  an unset current file, and a hunk after it records nothing when no file was set.
\<close>

theorem header_too_short_ignored_witness:
  "count_list ''y.py'' (CHR ''/'') < (1::nat) \<and>
   parse_line 1 (''+++ '' @ ''y.py'') ([], Some (Path ''x.py'')) = Inr ([], Some (Path ''x.py'')) \<and>
   parse_lines 1 [''+++ '' @ ''y.py'', ''@@ -4 +5 @@''] ([], None) = Inr ([], None)"
proof -
  have h: "count_list ''y.py'' (CHR ''/'') < (1::nat)"
    by simp
  have r: "parse_lines 1 [''@@ -4 +5 @@''] ([], None) = Inr ([], None)"
    by code_simp
  from h r
    header_too_short_ignored [OF h, of "([], Some (Path ''x.py''))" "[]"]
    header_too_short_ignored [OF h, of "([], None)" "[''@@ -4 +5 @@'']"]
  show ?thesis by simp
qed

text \<open>
  C3 as stated fails. After a header that did set the current file, a header with too
  few segments does not unset it: the hunk of \<^verbatim>\<open>y.py\<close> is recorded for \<^verbatim>\<open>x.py\<close>. And a
  header whose remaining path is empty sets the current file to the path of the empty
  string, which prints as \<^verbatim>\<open>.\<close> and is not \<^verbatim>\<open>None\<close>, so the hunk that follows is
  recorded under it.
\<close>

theorem header_too_short_counterexample:
  "parse_diff (''+++ b/x.py'' @ [LF] @ ''@@ -1 +1 @@'' @ [LF] @
               ''+++ y.py'' @ [LF] @ ''@@ -4 +5 @@'' @ [LF]) 1
     = Inr [(Path ''x.py'', [\<lparr>start = 1, stop = 2, step = 1\<rparr>, \<lparr>start = 5, stop = 6, step = 1\<rparr>])] \<and>
   parse_diff (''+++ b/'' @ [LF] @ ''@@ -1,2 +3,4 @@'' @ [LF]) 1
     = Inr [(Path '''', [\<lparr>start = 3, stop = 7, step = 1\<rparr>])]"
  by code_simp

section \<open>Ranges of the result\<close>

text \<open>
  Claim C7. Every range in the mapping that \<^verbatim>\<open>parse_diff\<close> returns ends after its start,
  and every path of the mapping has a non-empty list of ranges (each path occurs once).
  A hunk header whose count group is a string of digits of value 0 records no range:
  the line leaves the state as it is, unless the conversion of a number with more
  digits than \<^verbatim>\<open>int\<close> accepts raises; with numbers within that limit it always leaves
  the state as it is.
\<close>

theorem parse_diff_ranges:
  "(parse_diff diff n = Inr m \<longrightarrow>
      distinct (map fst m) \<and>
      (\<forall>(f, rs) \<in> set m. rs \<noteq> [] \<and> (\<forall>r \<in> set rs. start r < stop r))) \<and>
   (lineno_match line = Some (g1, Some g3) \<longrightarrow> decimal g3 = 0 \<longrightarrow>
      (parse_line n line st = Inr st \<or> parse_line n line st = Inl ValueError) \<and>
      (int (length g1) \<le> int_max_str_digits \<longrightarrow> int (length g3) \<le> int_max_str_digits \<longrightarrow>
         parse_line n line st = Inr st))"
proof -
  have ranges: "distinct (map fst m) \<and>
      (\<forall>(f, rs) \<in> set m. rs \<noteq> [] \<and> (\<forall>r \<in> set rs. start r < stop r))"
    if r: "parse_diff diff n = Inr m"
  proof -
    from r obtain c where "parse_lines n (splitlines diff) ([], None) = Inr (m, c)"
      by (auto simp: parse_diff_def split: sum.splits if_splits)
    then show ?thesis
      using parse_lines_ranges [of "[]" n "splitlines diff" None m c] by simp
  qed
  have zero: "(parse_line n line st = Inr st \<or> parse_line n line st = Inl ValueError) \<and>
      (int (length g1) \<le> int_max_str_digits \<longrightarrow> int (length g3) \<le> int_max_str_digits \<longrightarrow>
         parse_line n line st = Inr st)"
    if m: "lineno_match line = Some (g1, Some g3)" and z: "decimal g3 = 0"
  proof -
    from m have d: "g1 \<noteq> []" "list_all isdigit g1" "g3 \<noteq> []" "list_all isdigit g3"
      using lineno_match_digits [of line g1 "Some g3"] by auto
    from m have f: "filename_match n line = None"
      by (rule lineno_match_not_filename)
    obtain lines cur where st: "st = (lines, cur)" by (cases st)
    have step: "parse_line n line st =
        (case cur of None \<Rightarrow> Inr st
         | Some x \<Rightarrow> (case int_of_str g1 of Inl e \<Rightarrow> Inl e
             | Inr s \<Rightarrow> (case int_of_str g3 of Inl e \<Rightarrow> Inl e
                 | Inr c \<Rightarrow> if c = 0 then Inr st
                            else Inr (setdefault_append x \<lparr>start = s, stop = s + c, step = 1\<rparr> lines, cur))))"
      unfolding st using m d(3) f by (simp only: parse_line_cases) (simp split: option.splits)
    have a: "parse_line n line st = Inr st \<or> parse_line n line st = Inl ValueError"
    proof (cases cur)
      case None
      with step show ?thesis by simp
    next
      case (Some x)
      show ?thesis
      proof (cases "int_of_str g1")
        case (Inl e)
        with step Some show ?thesis by (simp add: int_of_str_error)
      next
        case s: (Inr s)
        show ?thesis
        proof (cases "int_of_str g3")
          case (Inl e)
          with step Some s show ?thesis by (simp add: int_of_str_error)
        next
          case (Inr c)
          with z have "c = 0" using int_of_str_value [of g3 c] by simp
          with step Some s Inr show ?thesis by simp
        qed
      qed
    qed
    have b: "parse_line n line st = Inr st"
      if "int (length g1) \<le> int_max_str_digits" and "int (length g3) \<le> int_max_str_digits"
    proof -
      from that d z have "int_of_str g1 = Inr (decimal g1)" "int_of_str g3 = Inr 0"
        by (simp_all add: int_of_str_digits)
      with step show ?thesis by (simp split: option.splits)
    qed
    from a b show ?thesis by blast
  qed
  from ranges zero show ?thesis by blast
qed

text \<open>
  An instance: the three paths of \<open>sample_diff\<close>, and the hunk header \<^verbatim>\<open>@@ -7 +7,0 @@\<close> of a
  pure deletion.
\<close>

theorem parse_diff_ranges_witness:
  "parse_diff sample_diff 1
     = Inr [(Path ''a.py'', [\<lparr>start = 3, stop = 7, step = 1\<rparr>]),
            (Path ''c.py'', [\<lparr>start = 9, stop = 10, step = 1\<rparr>]),
            (Path ''d.cpp'', [\<lparr>start = 1, stop = 3, step = 1\<rparr>])] \<and>
   distinct [Path ''a.py'', Path ''c.py'', Path ''d.cpp''] \<and>
   lineno_match ''@@ -7 +7,0 @@'' = Some (''7'', Some ''0'') \<and> decimal ''0'' = 0 \<and>
   parse_line 1 ''@@ -7 +7,0 @@'' ([], Some (Path ''a.py'')) = Inr ([], Some (Path ''a.py''))"
proof -
  let ?m = "[(Path ''a.py'', [\<lparr>start = 3, stop = 7, step = 1\<rparr>]),
            (Path ''c.py'', [\<lparr>start = 9, stop = 10, step = 1\<rparr>]),
            (Path ''d.cpp'', [\<lparr>start = 1, stop = 3, step = 1\<rparr>])]"
  have p: "parse_diff sample_diff 1 = Inr ?m"
    by code_simp
  have m: "lineno_match ''@@ -7 +7,0 @@'' = Some (''7'', Some ''0'')"
    by code_simp
  have z: "decimal ''0'' = 0"
    by (simp add: decimal_def digit_val_def)
  have l: "int (length ''7'') \<le> int_max_str_digits" "int (length ''0'') \<le> int_max_str_digits"
    by (simp_all add: int_max_str_digits_def)
  from p m z l
    parse_diff_ranges [of sample_diff 1 ?m "''@@ -7 +7,0 @@''" "''7''" "''0''"
      "([], Some (Path ''a.py''))"]
  show ?thesis by simp
qed

section \<open>A hunk header without a count\<close>

text \<open>
  Claim C8, as amended. Let \<^verbatim>\<open>lineno_regex\<close> match a line of the diff without its count
  group, with a start line \<open>N\<close> of no more digits than \<^verbatim>\<open>int\<close> converts, and let the lines
  before it leave \<open>f\<close> as the current file. Then \<^verbatim>\<open>parse_diff\<close> records the range from
  \<open>N\<close> to \<open>N + 1\<close> for \<open>f\<close>: the count defaults to 1. The loop goes on from the state with
  exactly that range appended, a mapping that \<^verbatim>\<open>parse_diff\<close> returns holds the range
  under \<open>f\<close>, and it does return one when the numbers of the later lines are within the
  limit too. A hunk header \<^verbatim>\<open>@@<old>+N @@...\<close>, where \<open>old\<close> has no \<^verbatim>\<open>+\<close> and \<open>N\<close> is a string of
  digits, is such a line; for \<^verbatim>\<open>@@ -1,2 +5 @@\<close> the range is from 5 to 6.
\<close>

theorem hunk_count_omitted:
  "(splitlines diff = pre @ line # post \<longrightarrow> int n < MAXREPEAT \<longrightarrow>
    parse_lines n pre ([], None) = Inr (lines, Some f) \<longrightarrow>
    lineno_match line = Some (N, None) \<longrightarrow> int (length N) \<le> int_max_str_digits \<longrightarrow>
      parse_lines n (pre @ line # post) ([], None)
      = parse_lines n post
          (setdefault_append f \<lparr>start = decimal N, stop = decimal N + 1, step = 1\<rparr> lines, Some f) \<and>
      (\<forall>m. parse_diff diff n = Inr m \<longrightarrow>
         (\<exists>rs. (f, rs) \<in> set m \<and> \<lparr>start = decimal N, stop = decimal N + 1, step = 1\<rparr> \<in> set rs)) \<and>
      (list_all within_int_limit post \<longrightarrow> (\<exists>m. parse_diff diff n = Inr m))) \<and>
   (CHR ''+'' \<notin> set old \<longrightarrow> LF \<notin> set old \<longrightarrow> M \<noteq> [] \<longrightarrow> list_all isdigit M \<longrightarrow>
      lineno_match (''@@'' @ old @ ''+'' @ M @ '' @@'' @ rest) = Some (M, None))"
proof -
  let ?v = "\<lparr>start = decimal N, stop = decimal N + 1, step = 1\<rparr>"
  let ?st = "(setdefault_append f ?v lines, Some f)"
  have form: "lineno_match (''@@'' @ old @ ''+'' @ M @ '' @@'' @ rest) = Some (M, None)"
    if "CHR ''+'' \<notin> set old" and "LF \<notin> set old" and "M \<noteq> []" and "list_all isdigit M"
    using that by (rule lineno_match_no_count)
  have main: "parse_lines n (pre @ line # post) ([], None) = parse_lines n post ?st \<and>
      (\<forall>m. parse_diff diff n = Inr m \<longrightarrow> (\<exists>rs. (f, rs) \<in> set m \<and> ?v \<in> set rs)) \<and>
      (list_all within_int_limit post \<longrightarrow> (\<exists>m. parse_diff diff n = Inr m))"
    if sp: "splitlines diff = pre @ line # post" and n: "int n < MAXREPEAT"
      and pre: "parse_lines n pre ([], None) = Inr (lines, Some f)"
      and m: "lineno_match line = Some (N, None)" and len: "int (length N) \<le> int_max_str_digits"
  proof -
    have step: "parse_line n line (lines, Some f) = Inr ?st"
      using m len by (rule parse_line_no_count)
    have eq: "parse_lines n (pre @ line # post) ([], None) = parse_lines n post ?st"
      using parse_lines_append [OF pre, of "line # post"] step by simp
    have mem: "\<exists>rs. (f, rs) \<in> set m' \<and> ?v \<in> set rs" if r: "parse_diff diff n = Inr m'" for m'
    proof -
      from r n sp eq obtain c' where fin: "parse_lines n post ?st = Inr (m', c')"
        by (auto simp: parse_diff_def split: sum.splits if_splits)
      obtain rs0 where "(f, rs0 @ [?v]) \<in> set (setdefault_append f ?v lines)"
        using setdefault_append_recorded by blast
      with fin obtain rs' where "(f, (rs0 @ [?v]) @ rs') \<in> set m'"
        using parse_lines_keeps by blast
      then show ?thesis by fastforce
    qed
    have tot: "\<exists>m'. parse_diff diff n = Inr m'" if "list_all within_int_limit post"
    proof -
      from that obtain st' where "parse_lines n post ?st = Inr st'"
        using parse_lines_total by blast
      with n sp eq show ?thesis
        by (cases st') (simp add: parse_diff_def)
    qed
    from eq mem tot show ?thesis by blast
  qed
  from form main show ?thesis by blast
qed

text \<open>
  An instance: the header \<^verbatim>\<open>@@ -1,2 +5 @@\<close> under the file \<^verbatim>\<open>x.py\<close>.
\<close>

theorem hunk_count_omitted_witness:
  "splitlines (''+++ b/x.py'' @ [LF] @ ''@@ -1,2 +5 @@'' @ [LF]) = [''+++ b/x.py''] @ ''@@ -1,2 +5 @@'' # [] \<and>
   parse_lines 1 [''+++ b/x.py''] ([], None) = Inr ([], Some (Path ''x.py'')) \<and>
   lineno_match ''@@ -1,2 +5 @@'' = Some (''5'', None) \<and>
   parse_lines 1 [''+++ b/x.py'', ''@@ -1,2 +5 @@''] ([], None)
     = Inr ([(Path ''x.py'', [\<lparr>start = 5, stop = 6, step = 1\<rparr>])], Some (Path ''x.py'')) \<and>
   parse_diff (''+++ b/x.py'' @ [LF] @ ''@@ -1,2 +5 @@'' @ [LF]) 1
     = Inr [(Path ''x.py'', [\<lparr>start = 5, stop = 6, step = 1\<rparr>])]"
proof -
  let ?diff = "''+++ b/x.py'' @ [LF] @ ''@@ -1,2 +5 @@'' @ [LF]"
  have h1: "splitlines ?diff = [''+++ b/x.py''] @ ''@@ -1,2 +5 @@'' # []"
    by code_simp
  have h2: "int 1 < MAXREPEAT"
    by (simp add: MAXREPEAT_def)
  have h3: "parse_lines 1 [''+++ b/x.py''] ([], None) = Inr ([], Some (Path ''x.py''))"
    by code_simp
  have f: "CHR ''+'' \<notin> set '' -1,2 ''" "LF \<notin> set '' -1,2 ''" "''5'' \<noteq> []" "list_all isdigit ''5''"
    by (simp_all add: isdigit_def)
  from hunk_count_omitted [of _ _ _ _ _ _ _ _ "'' -1,2 ''" "''5''" "[]"] f
  have "lineno_match (''@@'' @ '' -1,2 '' @ ''+'' @ ''5'' @ '' @@'' @ []) = Some (''5'', None)"
    by blast
  then have h4: "lineno_match ''@@ -1,2 +5 @@'' = Some (''5'', None)"
    by simp
  have h5: "int (length ''5'') \<le> int_max_str_digits"
    by (simp add: int_max_str_digits_def)
  have v: "decimal ''5'' = 5"
    by (simp add: decimal_def digit_val_def)
  have p: "parse_diff ?diff 1 = Inr [(Path ''x.py'', [\<lparr>start = 5, stop = 6, step = 1\<rparr>])]"
    by code_simp
  from hunk_count_omitted [of ?diff "[''+++ b/x.py'']" "''@@ -1,2 +5 @@''" "[]" 1 "[]" "Path ''x.py''" "''5''"]
    h1 h2 h3 h4 h5
  have "parse_lines 1 ([''+++ b/x.py''] @ ''@@ -1,2 +5 @@'' # []) ([], None)
      = parse_lines 1 []
          (setdefault_append (Path ''x.py'') \<lparr>start = decimal ''5'', stop = decimal ''5'' + 1, step = 1\<rparr> [],
           Some (Path ''x.py''))"
    by blast
  with v have "parse_lines 1 [''+++ b/x.py'', ''@@ -1,2 +5 @@''] ([], None)
     = Inr ([(Path ''x.py'', [\<lparr>start = 5, stop = 6, step = 1\<rparr>])], Some (Path ''x.py''))"
    by simp
  with h1 h3 h4 p show ?thesis by blast
qed

text \<open>
  C8 as stated fails for a start line of 4301 digits under a current file, where
  \<^verbatim>\<open>int\<close> raises \<^verbatim>\<open>ValueError\<close> and nothing is returned, and for a hunk header that no
  file header precedes, which records nothing.
\<close>

theorem hunk_count_omitted_counterexample:
  "parse_diff (''+++ b/x.py'' @ [LF] @ ''@@ -1,2 +'' @ replicate 4301 (CHR ''5'') @ '' @@'') 1
     = Inl ValueError \<and>
   parse_diff (''@@ -1,2 +5 @@'' @ [LF]) 0 = Inr []"
proof -
  let ?N = "replicate 4301 (CHR ''5'')"
  let ?l = "''@@'' @ '' -1,2 '' @ ''+'' @ ?N @ '' @@'' @ []"
  have d: "list_all isdigit ?N" "?N \<noteq> []"
    by (simp_all add: list_all_iff isdigit_def)
  have m: "lineno_match ?l = Some (?N, None)"
    using d by (intro lineno_match_no_count) simp_all
  have nb: "\<forall>c \<in> set ''+++ b/x.py''. \<not> islinebreak c" "\<forall>c \<in> set ?l. \<not> islinebreak c" "?l \<noteq> []"
    by (simp_all add: islinebreak_def)
  have h: "parse_line 1 ''+++ b/x.py'' ([], None) = Inr ([], Some (Path ''x.py''))"
    by code_simp
  have "parse_diff (''+++ b/x.py'' @ LF # ?l) 1 = Inl ValueError"
    using nb _ h m by (rule long_start_raises) (simp_all add: MAXREPEAT_def int_max_str_digits_def)
  moreover have "parse_diff (''@@ -1,2 +5 @@'' @ [LF]) 0 = Inr []"
    by code_simp
  ultimately show ?thesis by simp
qed

section \<open>Hunk headers before the first file header\<close>

text \<open>
  Claim C9. As long as no line has matched \<^verbatim>\<open>filename_regex\<close>, every line is skipped:
  the lines before the first file header, hunk headers among them, change nothing and
  raise nothing, and a diff without any such header yields the empty mapping (for a
  strip count that the pattern compiles with).
\<close>

theorem hunks_before_header_ignored:
  "((\<forall>l \<in> set pre. filename_match n l = None) \<longrightarrow>
      parse_lines n (pre @ rest) (lines, None) = parse_lines n rest (lines, None)) \<and>
   (int n < MAXREPEAT \<longrightarrow> (\<forall>l \<in> set (splitlines diff). filename_match n l = None) \<longrightarrow>
      parse_diff diff n = Inr [])"
proof (intro conjI impI)
  assume "\<forall>l \<in> set pre. filename_match n l = None"
  then show "parse_lines n (pre @ rest) (lines, None) = parse_lines n rest (lines, None)"
    by (rule parse_lines_no_file)
next
  assume n: "int n < MAXREPEAT" and "\<forall>l \<in> set (splitlines diff). filename_match n l = None"
  then have "parse_lines n (splitlines diff @ []) ([], None) = parse_lines n [] ([], None)"
    by (intro parse_lines_no_file)
  with n show "parse_diff diff n = Inr []"
    by (simp add: parse_diff_def)
qed

text \<open>
  An instance: a hunk header and an old-file header before the first new-file header.
\<close>

theorem hunks_before_header_ignored_witness:
  "filename_match 0 ''@@ -1,2 +3,4 @@'' = None \<and> filename_match 0 ''--- a/x.py'' = None \<and>
   parse_lines 0 ([''@@ -1,2 +3,4 @@'', ''--- a/x.py''] @ [''+++ b/x.py'', ''@@ -8 +9 @@'']) ([], None)
     = parse_lines 0 [''+++ b/x.py'', ''@@ -8 +9 @@''] ([], None) \<and>
   parse_diff (''@@ -1,2 +3,4 @@'' @ [LF] @ ''--- a/x.py'' @ [LF]) 0 = Inr []"
proof -
  have a: "filename_match 0 ''@@ -1,2 +3,4 @@'' = None" "filename_match 0 ''--- a/x.py'' = None"
    by (simp_all add: filename_match_def)
  have b: "splitlines (''@@ -1,2 +3,4 @@'' @ [LF] @ ''--- a/x.py'' @ [LF])
           = [''@@ -1,2 +3,4 @@'', ''--- a/x.py'']"
    by code_simp
  have c: "int 0 < MAXREPEAT"
    by (simp add: MAXREPEAT_def)
  from a b c
    hunks_before_header_ignored [of "[''@@ -1,2 +3,4 @@'', ''--- a/x.py'']" 0
      "[''+++ b/x.py'', ''@@ -8 +9 @@'']" "[]"
      "''@@ -1,2 +3,4 @@'' @ [LF] @ ''--- a/x.py'' @ [LF]"]
  show ?thesis by simp
qed

section \<open>Totality of the parser\<close>

text \<open>
  Claim C10, as amended. \<^verbatim>\<open>parse_diff\<close> returns a mapping, without raising, for every
  strip count below \<^verbatim>\<open>MAXREPEAT\<close> and every diff text in which the numbers that
  \<^verbatim>\<open>lineno_regex\<close> captures have no more digits than \<^verbatim>\<open>int\<close> converts (4300). It raises
  nothing but \<^verbatim>\<open>OverflowError\<close>, for a strip count from \<^verbatim>\<open>MAXREPEAT\<close> on, and
  \<^verbatim>\<open>ValueError\<close>, for a number with more digits. The conversions to \<^verbatim>\<open>int\<close> are applied
  only to groups of \<^verbatim>\<open>lineno_regex\<close>, which are non-empty strings of decimal digits, and
  succeed on them within the limit.
\<close>

theorem parse_diff_total:
  "(int n < MAXREPEAT \<longrightarrow> list_all within_int_limit (splitlines diff) \<longrightarrow>
      (\<exists>m. parse_diff diff n = Inr m)) \<and>
   (parse_diff diff n = Inl e \<longrightarrow>
      (e = OverflowError \<and> MAXREPEAT \<le> int n) \<or>
      (e = ValueError \<and> int n < MAXREPEAT \<and> \<not> list_all within_int_limit (splitlines diff))) \<and>
   (lineno_match line = Some (g1, g3) \<longrightarrow>
      g1 \<noteq> [] \<and> list_all isdigit g1 \<and>
      (int (length g1) \<le> int_max_str_digits \<longrightarrow> int_of_str g1 = Inr (decimal g1)) \<and>
      (\<forall>s. g3 = Some s \<longrightarrow>
         s \<noteq> [] \<and> list_all isdigit s \<and>
         (int (length s) \<le> int_max_str_digits \<longrightarrow> int_of_str s = Inr (decimal s))))"
proof -
  have returns: "\<exists>m. parse_diff diff n = Inr m"
    if "int n < MAXREPEAT" and "list_all within_int_limit (splitlines diff)"
  proof -
    from that(2) obtain st' where "parse_lines n (splitlines diff) ([], None) = Inr st'"
      using parse_lines_total by blast
    with that(1) show ?thesis
      by (cases st') (simp add: parse_diff_def)
  qed
  have raises: "(e = OverflowError \<and> MAXREPEAT \<le> int n) \<or>
      (e = ValueError \<and> int n < MAXREPEAT \<and> \<not> list_all within_int_limit (splitlines diff))"
    if r: "parse_diff diff n = Inl e"
  proof (cases "MAXREPEAT \<le> int n")
    case True
    with r show ?thesis by (simp add: parse_diff_def)
  next
    case False
    with r have "parse_lines n (splitlines diff) ([], None) = Inl e"
      by (auto simp: parse_diff_def split: sum.splits)
    then have "e = ValueError"
      by (rule parse_lines_error)
    moreover have "\<not> list_all within_int_limit (splitlines diff)"
      using returns r False by auto
    ultimately show ?thesis using False by simp
  qed
  have digits: "g1 \<noteq> [] \<and> list_all isdigit g1 \<and>
      (int (length g1) \<le> int_max_str_digits \<longrightarrow> int_of_str g1 = Inr (decimal g1)) \<and>
      (\<forall>s. g3 = Some s \<longrightarrow>
         s \<noteq> [] \<and> list_all isdigit s \<and>
         (int (length s) \<le> int_max_str_digits \<longrightarrow> int_of_str s = Inr (decimal s)))"
    if "lineno_match line = Some (g1, g3)"
  proof -
    from that
    have "g1 \<noteq> [] \<and> list_all isdigit g1 \<and> (\<forall>x. g3 = Some x \<longrightarrow> x \<noteq> [] \<and> list_all isdigit x)"
      by (rule lineno_match_digits)
    then show ?thesis
      by (simp add: int_of_str_digits)
  qed
  from returns raises digits show ?thesis by blast
qed

text \<open>
  An instance: \<open>sample_diff\<close> with one segment stripped, and the groups of
  \<^verbatim>\<open>@@ -1,2 +3,4 @@\<close>, which convert to 3 and 4.
\<close>

theorem parse_diff_total_witness:
  "list_all within_int_limit (splitlines sample_diff) \<and>
   (\<exists>m. parse_diff sample_diff 1 = Inr m) \<and>
   parse_diff [] 4294967296 = Inl OverflowError \<and> MAXREPEAT \<le> int 4294967296 \<and>
   lineno_match ''@@ -1,2 +3,4 @@'' = Some (''3'', Some ''4'') \<and>
   int_of_str ''3'' = Inr 3 \<and> int_of_str ''4'' = Inr 4"
proof -
  have n: "int 1 < MAXREPEAT"
    by (simp add: MAXREPEAT_def)
  have w: "list_all within_int_limit (splitlines sample_diff)"
    by code_simp
  have o: "parse_diff [] 4294967296 = Inl OverflowError"
    by (simp add: parse_diff_def MAXREPEAT_def)
  have m: "lineno_match ''@@ -1,2 +3,4 @@'' = Some (''3'', Some ''4'')"
    by code_simp
  have v: "decimal ''3'' = 3" "decimal ''4'' = 4"
    by (simp_all add: decimal_def digit_val_def)
  have l: "int (length ''3'') \<le> int_max_str_digits" "int (length ''4'') \<le> int_max_str_digits"
    by (simp_all add: int_max_str_digits_def)
  from parse_diff_total [of 1 sample_diff OverflowError "''@@ -1,2 +3,4 @@''" "''3''" "Some ''4''"] n w m l
  have "\<exists>m. parse_diff sample_diff 1 = Inr m" and "int_of_str ''3'' = Inr (decimal ''3'')"
    and "int_of_str ''4'' = Inr (decimal ''4'')"
    by blast+
  moreover from parse_diff_total [of 4294967296 "[]" OverflowError] o
  have "MAXREPEAT \<le> int 4294967296"
    by blast
  ultimately show ?thesis using w o m v by simp
qed

text \<open>
  C10 as stated fails: a start line of 4301 digits under a current file raises
  \<^verbatim>\<open>ValueError\<close>, and the strip count 4294967295 raises \<^verbatim>\<open>OverflowError\<close> when the
  pattern is compiled.
\<close>

theorem parse_diff_total_counterexample:
  "parse_diff (''+++ x.py'' @ [LF] @ ''@@ -1 +'' @ replicate 4301 (CHR ''1'') @ '' @@'') 0
     = Inl ValueError \<and>
   parse_diff [] 4294967295 = Inl OverflowError"
proof -
  let ?N = "replicate 4301 (CHR ''1'')"
  let ?l = "''@@'' @ '' -1 '' @ ''+'' @ ?N @ '' @@'' @ []"
  have d: "list_all isdigit ?N" "?N \<noteq> []"
    by (simp_all add: list_all_iff isdigit_def)
  have m: "lineno_match ?l = Some (?N, None)"
    using d by (intro lineno_match_no_count) simp_all
  have nb: "\<forall>c \<in> set ''+++ x.py''. \<not> islinebreak c" "\<forall>c \<in> set ?l. \<not> islinebreak c" "?l \<noteq> []"
    by (simp_all add: islinebreak_def)
  have h: "parse_line 0 ''+++ x.py'' ([], None) = Inr ([], Some (Path ''x.py''))"
    by code_simp
  have "parse_diff (''+++ x.py'' @ LF # ?l) 0 = Inl ValueError"
    using nb _ h m by (rule long_start_raises) (simp_all add: MAXREPEAT_def int_max_str_digits_def)
  moreover have "parse_diff [] 4294967295 = Inl OverflowError"
    by (simp add: parse_diff_def MAXREPEAT_def)
  ultimately show ?thesis by simp
qed

section \<open>What a process failure can be\<close>

text \<open>
  Once \<^verbatim>\<open>argparse\<close> has returned a namespace, every exception that a step of \<^verbatim>\<open>main\<close>
  raises ends the interpreter with status 1: the exceptions of the subprocess calls,
  of decoding and of \<^verbatim>\<open>parse_diff\<close> are caught nowhere, and \<^verbatim>\<open>find_repo_root\<close> exits
  with 1.
\<close>

lemma call_pipe_error:
  "call_pipe env cmd cwd w = (Inl e, w') \<Longrightarrow> exit_status (Inl e) = 1"
  by (auto simp: call_pipe_def spawn_def exit_status_def
           split: proc_result.splits if_splits option.splits)

lemma find_repo_root_error:
  assumes "find_repo_root env w = (Inl e, w')"
  shows "exit_status (Inl e) = 1"
proof -
  obtain r w1 where c: "call_pipe env [''git'', ''rev-parse'', ''--show-toplevel''] None w = (r, w1)"
    by (cases "call_pipe env [''git'', ''rev-parse'', ''--show-toplevel''] None w")
  show ?thesis
  proof (cases r)
    case (Inl e1)
    with c have "exit_status (Inl e1) = 1"
      by (simp add: call_pipe_error)
    with assms c Inl show ?thesis
      by (cases e1) (auto simp: find_repo_root_def exit_status_def)
  next
    case (Inr out)
    with assms c show ?thesis
      by (simp add: find_repo_root_def)
  qed
qed

lemma get_diff_error:
  assumes "get_diff env repo_root r w = (Inl e, w')"
  shows "exit_status (Inl e) = 1"
  using assms
  by (auto simp: get_diff_def split: prod.splits sum.splits dest: call_pipe_error)

lemma check_call_error:
  "check_call env argv w = (Inl e, w') \<Longrightarrow> exit_status (Inl e) = 1"
  by (auto simp: check_call_def spawn_def exit_status_def split: proc_result.splits if_splits)

lemma run_error: "run env argv w = (Inl e, w') \<Longrightarrow> exit_status (Inl e) = 1"
  by (auto simp: run_def spawn_def exit_status_def split: proc_result.splits)

lemma lines_args_error: "lines_args sep ls = Inl e \<Longrightarrow> e = ValueError"
  by (induction ls arbitrary: e)
     (auto simp: str_int_def Let_def split: sum.splits if_splits)

lemma formatter_argv_error: "formatter_argv cmd f ls sep = Inl e \<Longrightarrow> exit_status (Inl e) = 1"
  by (auto simp: formatter_argv_def exit_status_def split: sum.splits dest: lines_args_error)

lemma run_formatter_files_error:
  "run_formatter_files env cmd sep fs w = (Inl e, w') \<Longrightarrow> exit_status (Inl e) = 1"
proof (induction fs arbitrary: w)
  case Nil
  then show ?case by simp
next
  case (Cons t fs)
  obtain f ls where t: "t = (f, ls)" by (cases t)
  show ?case
  proof (cases "formatter_argv cmd f ls sep")
    case (Inl e0)
    with Cons.prems t have "e = e0" by simp
    with Inl show ?thesis by (simp add: formatter_argv_error)
  next
    case argv: (Inr argv)
    obtain r w1 where c: "check_call env argv w = (r, w1)"
      by (cases "check_call env argv w")
    show ?thesis
    proof (cases r)
      case (Inl e1)
      with Cons.prems t argv c have "e = e1" by simp
      with c Inl show ?thesis by (simp add: check_call_error)
    next
      case (Inr u)
      with Cons.prems t argv c have "run_formatter_files env cmd sep fs w1 = (Inl e, w')" by simp
      then show ?thesis by (rule Cons.IH)
    qed
  qed
qed

lemma run_flake8_files_error:
  "run_flake8_files env cmd fs w = (Inl e, w') \<Longrightarrow> exit_status (Inl e) = 1"
proof (induction fs arbitrary: w)
  case Nil
  then show ?case by simp
next
  case (Cons f fs)
  obtain r w1 where c: "run env [cmd, str_path f] w = (r, w1)"
    by (cases "run env [cmd, str_path f] w")
  show ?case
  proof (cases r)
    case (Inl e1)
    with Cons.prems c have "e = e1" by simp
    with c Inl show ?thesis by (simp add: run_error)
  next
    case (Inr u)
    with Cons.prems c have "run_flake8_files env cmd fs w1 = (Inl e, w')" by simp
    then show ?thesis by (rule Cons.IH)
  qed
qed

lemma run_checkers_error:
  assumes "run_checkers env a m w = (Inl e, w')"
  shows "exit_status (Inl e) = 1"
proof -
  have fmt: "\<And>exts sep cmd w w' x. run_formatter env cmd m exts sep w = (Inl x, w') \<Longrightarrow>
               exit_status (Inl x) = 1"
    unfolding run_formatter_def by (rule run_formatter_files_error)
  have lint: "\<And>cmd w w' x. run_flake8 env cmd m w = (Inl x, w') \<Longrightarrow> exit_status (Inl x) = 1"
    unfolding run_flake8_def by (rule run_flake8_files_error)
  obtain r1 w1 where s1:
    "run_if (clang_format a) (\<lambda>cmd. run_formatter env cmd m CPP_EXTENSIONS '':'') w = (r1, w1)"
    by (cases "run_if (clang_format a) (\<lambda>cmd. run_formatter env cmd m CPP_EXTENSIONS '':'') w")
  show ?thesis
  proof (cases r1)
    case (Inl e1)
    with assms s1 have "e = e1" by (simp add: run_checkers_def)
    with s1 Inl show ?thesis
      by (auto simp: run_if_def split: option.splits if_splits dest: fmt)
  next
    case Inr1: (Inr u1)
    obtain r2 w2 where s2:
      "run_if (yapf a) (\<lambda>cmd. run_formatter env cmd m PY_EXTENSIONS ''-'') w1 = (r2, w2)"
      by (cases "run_if (yapf a) (\<lambda>cmd. run_formatter env cmd m PY_EXTENSIONS ''-'') w1")
    show ?thesis
    proof (cases r2)
      case (Inl e2)
      with assms s1 Inr1 s2 have "e = e2" by (simp add: run_checkers_def)
      with s2 Inl show ?thesis
        by (auto simp: run_if_def split: option.splits if_splits dest: fmt)
    next
      case (Inr u2)
      with assms s1 Inr1 s2
      have "run_if (flake8 a) (\<lambda>cmd. run_flake8 env cmd m) w2 = (Inl e, w')"
        by (simp add: run_checkers_def)
      then show ?thesis
        by (auto simp: run_if_def split: option.splits if_splits dest: lint)
    qed
  qed
qed

lemma parse_diff_error:
  "parse_diff diff n = Inl e \<Longrightarrow> exit_status (Inl e) = 1"
  by (auto simp: parse_diff_def exit_status_def split: if_splits sum.splits dest: parse_lines_error)

lemma parse_args_namespace:
  "\<exists>a w'. parse_args (Namespace ns) w = (Inr a, w') \<and> calls w' = calls w"
  by (simp add: parse_args_def Let_def print_def)

lemma main_error:
  assumes "main env (Namespace ns) w = (Inl e, w')"
  shows "exit_status (Inl e) = 1"
proof -
  obtain a w0 where pa: "parse_args (Namespace ns) w = (Inr a, w0)"
    using parse_args_namespace by blast
  obtain r1 w1 where s1: "find_repo_root env w0 = (r1, w1)" by (cases "find_repo_root env w0")
  show ?thesis
  proof (cases r1)
    case (Inl e1)
    with assms pa s1 have "e = e1" by (simp add: main_def)
    with s1 Inl show ?thesis using find_repo_root_error by blast
  next
    case Inr1: (Inr repo_root)
    obtain r2 w2 where s2: "get_diff env repo_root (ref a) w1 = (r2, w2)"
      by (cases "get_diff env repo_root (ref a) w1")
    show ?thesis
    proof (cases r2)
      case (Inl e2)
      with assms pa s1 Inr1 s2 have "e = e2" by (simp add: main_def)
      with s2 Inl show ?thesis using get_diff_error by blast
    next
      case Inr2: (Inr diff)
      show ?thesis
      proof (cases "parse_diff diff (prefix a)")
        case (Inl e3)
        with assms pa s1 Inr1 s2 Inr2 have "e = e3" by (simp add: main_def)
        with Inl show ?thesis using parse_diff_error by blast
      next
        case (Inr m)
        with assms pa s1 Inr1 s2 Inr2 have "run_checkers env a m w2 = (Inl e, w')"
          by (simp add: main_def)
        then show ?thesis using run_checkers_error by blast
      qed
    qed
  qed
qed

lemma find_repo_root_fails:
  assumes "env (calls w) ([''git'', ''rev-parse'', ''--show-toplevel''], None) = Exited rc out"
    and "rc \<noteq> 0"
  shows "find_repo_root env w
         = (Inl (SystemExit 1),
            print ''Failed to determine git root directory. Is this a git repository?''
              (w\<lparr>calls := calls w @ [([''git'', ''rev-parse'', ''--show-toplevel''], None)]\<rparr>))"
  using assms by (simp add: find_repo_root_def call_pipe_def spawn_def)

lemma check_call_nonzero:
  assumes "env (calls w) (argv, None) = Exited rc out" and "rc \<noteq> 0"
  shows "check_call env argv w = (Inl (CalledProcessError rc), w\<lparr>calls := calls w @ [(argv, None)]\<rparr>)"
  using assms by (simp add: check_call_def spawn_def)

lemma run_formatter_files_append:
  "run_formatter_files env cmd sep pre w = (Inr (), w1) \<Longrightarrow>
   run_formatter_files env cmd sep (pre @ post) w = run_formatter_files env cmd sep post w1"
proof (induction pre arbitrary: w)
  case Nil
  then show ?case by simp
next
  case (Cons t pre)
  obtain f ls where t: "t = (f, ls)" by (cases t)
  show ?case
  proof (cases "formatter_argv cmd f ls sep")
    case (Inl e0)
    with Cons.prems t show ?thesis by simp
  next
    case argv: (Inr argv)
    obtain r w' where c: "check_call env argv w = (r, w')"
      by (cases "check_call env argv w")
    show ?thesis
    proof (cases r)
      case (Inl e)
      with Cons.prems t argv c show ?thesis by simp
    next
      case (Inr u)
      with Cons.prems t argv c have "run_formatter_files env cmd sep pre w' = (Inr (), w1)" by simp
      then have "run_formatter_files env cmd sep (pre @ post) w' = run_formatter_files env cmd sep post w1"
        by (rule Cons.IH)
      with t argv c Inr show ?thesis by simp
    qed
  qed
qed

lemma run_formatter_files_abort:
  assumes "run_formatter_files env cmd sep pre w = (Inr (), w1)"
    and "formatter_argv cmd f ls sep = Inr argv"
    and "env (calls w1) (argv, None) = Exited rc out" and "rc \<noteq> 0"
  shows "run_formatter_files env cmd sep (pre @ (f, ls) # post) w
         = (Inl (CalledProcessError rc), w1\<lparr>calls := calls w1 @ [(argv, None)]\<rparr>)"
proof -
  have "run_formatter_files env cmd sep (pre @ (f, ls) # post) w
        = run_formatter_files env cmd sep ((f, ls) # post) w1"
    using assms(1) by (rule run_formatter_files_append)
  also have "\<dots> = (Inl (CalledProcessError rc), w1\<lparr>calls := calls w1 @ [(argv, None)]\<rparr>)"
    using check_call_nonzero [of env w1 argv rc out] assms(2,3,4) by simp
  finally show ?thesis .
qed

lemma run_flake8_files_all:
  assumes "\<forall>h c. env h c \<noteq> NotStarted"
  shows "run_flake8_files env cmd fs w
         = (Inr (), w\<lparr>calls := calls w @ map (\<lambda>fn. ([cmd, str_path fn], None)) fs\<rparr>)"
proof (induction fs arbitrary: w)
  case Nil
  then show ?case by simp
next
  case (Cons f fs)
  from assms obtain rc out where "env (calls w) ([cmd, str_path f], None) = Exited rc out"
    by (cases "env (calls w) ([cmd, str_path f], None)") auto
  then have "run env [cmd, str_path f] w = (Inr (), w\<lparr>calls := calls w @ [([cmd, str_path f], None)]\<rparr>)"
    by (simp add: run_def spawn_def)
  then show ?case
    by (simp add: Cons.IH)
qed

section \<open>The range arguments of a formatter\<close>

text \<open>
  Claim C2, evaluated. \<^verbatim>\<open>run_formatter\<close> makes one invocation per qualifying file, with
  one \<^verbatim>\<open>--lines\<close> argument per range, \<^verbatim>\<open>:\<close> separating the bounds for clang-format and
  \<^verbatim>\<open>-\<close> for yapf. The second bound is \<^verbatim>\<open>l.stop\<close>, the exclusive end \<open>start + count\<close>, not
  the end minus one: the hunk \<^verbatim>\<open>+3,4\<close> (lines 3 to 6) is passed as \<^verbatim>\<open>--lines=3-7\<close>.
\<close>

theorem formatter_receives_exclusive_end:
  "parse_diff (''+++ b/a.py'' @ [LF] @ ''@@ -1,2 +3,4 @@'' @ [LF]) 1
     = Inr [(Path ''a.py'', [\<lparr>start = 3, stop = 7, step = 1\<rparr>])] \<and>
   formatter_argv ''yapf'' (Path ''a.py'') [\<lparr>start = 3, stop = 7, step = 1\<rparr>] ''-''
     = Inr [''yapf'', ''a.py'', ''-i'', ''--lines=3-7''] \<and>
   calls (snd (run_checkers (all_exit 0) (no_flags\<lparr>yapf := Some ''yapf'', clang_format := Some ''clang-format''\<rparr>)
                 sample_changes start_world))
     = [([''clang-format'', ''d.cpp'', ''-i'', ''--lines=1:3''], None),
        ([''yapf'', ''a.py'', ''-i'', ''--lines=3-7''], None),
        ([''yapf'', ''c.py'', ''-i'', ''--lines=9-10''], None)]"
  by code_simp

section \<open>Fail-fast formatters, tolerant linter\<close>

text \<open>
  Claim C4. When the invocation of a formatter for a file (with the argument list
  \<open>argv\<close> that \<^verbatim>\<open>run_formatter\<close> builds for it) exits with a non-zero code,
  \<^verbatim>\<open>run_formatter\<close> raises \<^verbatim>\<open>CalledProcessError\<close> right after that invocation: the files
  after it are not processed, whatever they are. The exception ends the run: the
  checkers after that formatter are not started. \<^verbatim>\<open>run_flake8\<close>, for its part, invokes
  the linter for every Python file and returns normally whatever the exit codes are
  (provided the processes can be started at all).
\<close>

theorem formatter_fails_fast_linter_continues:
  "(filter (\<lambda>t. suffix (fst t) \<in> set extensions) m = pre @ (f, ls) # post \<longrightarrow>
    run_formatter_files env cmd sep pre w = (Inr (), w1) \<longrightarrow>
    formatter_argv cmd f ls sep = Inr argv \<longrightarrow>
    env (calls w1) (argv, None) = Exited rc out \<longrightarrow> rc \<noteq> 0 \<longrightarrow>
      run_formatter env cmd m extensions sep w
      = (Inl (CalledProcessError rc), w1\<lparr>calls := calls w1 @ [(argv, None)]\<rparr>)) \<and>
   (run_if (clang_format a) (\<lambda>cmd. run_formatter env cmd m CPP_EXTENSIONS '':'') w = (Inl e, w') \<longrightarrow>
      run_checkers env a m w = (Inl e, w')) \<and>
   (run_if (clang_format a) (\<lambda>cmd. run_formatter env cmd m CPP_EXTENSIONS '':'') w = (Inr (), w1) \<longrightarrow>
    run_if (yapf a) (\<lambda>cmd. run_formatter env cmd m PY_EXTENSIONS ''-'') w1 = (Inl e, w') \<longrightarrow>
      run_checkers env a m w = (Inl e, w')) \<and>
   ((\<forall>h c. env h c \<noteq> NotStarted) \<longrightarrow>
      run_flake8 env cmd m w
      = (Inr (),
         w\<lparr>calls := calls w @ map (\<lambda>fn. ([cmd, str_path fn], None))
                                  (filter (\<lambda>fn. suffix fn \<in> set PY_EXTENSIONS) (map fst m))\<rparr>))"
proof (intro conjI impI)
  assume "filter (\<lambda>t. suffix (fst t) \<in> set extensions) m = pre @ (f, ls) # post"
    and "run_formatter_files env cmd sep pre w = (Inr (), w1)"
    and "formatter_argv cmd f ls sep = Inr argv"
    and "env (calls w1) (argv, None) = Exited rc out" and "rc \<noteq> 0"
  then show "run_formatter env cmd m extensions sep w
      = (Inl (CalledProcessError rc), w1\<lparr>calls := calls w1 @ [(argv, None)]\<rparr>)"
    by (simp add: run_formatter_def run_formatter_files_abort)
next
  assume "run_if (clang_format a) (\<lambda>cmd. run_formatter env cmd m CPP_EXTENSIONS '':'') w = (Inl e, w')"
  then show "run_checkers env a m w = (Inl e, w')"
    by (simp add: run_checkers_def)
next
  assume "run_if (clang_format a) (\<lambda>cmd. run_formatter env cmd m CPP_EXTENSIONS '':'') w = (Inr (), w1)"
    and "run_if (yapf a) (\<lambda>cmd. run_formatter env cmd m PY_EXTENSIONS ''-'') w1 = (Inl e, w')"
  then show "run_checkers env a m w = (Inl e, w')"
    by (simp add: run_checkers_def)
next
  assume "\<forall>h c. env h c \<noteq> NotStarted"
  then show "run_flake8 env cmd m w
      = (Inr (),
         w\<lparr>calls := calls w @ map (\<lambda>fn. ([cmd, str_path fn], None))
                                  (filter (\<lambda>fn. suffix fn \<in> set PY_EXTENSIONS) (map fst m))\<rparr>)"
    unfolding run_flake8_def by (rule run_flake8_files_all)
qed

text \<open>
  An instance: \<^verbatim>\<open>yapf\<close> exits with 2 on the first of two Python files, so the second is
  not formatted and \<^verbatim>\<open>flake8\<close> is not started; a failing \<^verbatim>\<open>clang-format\<close> likewise ends
  the run; \<^verbatim>\<open>flake8\<close> exits with 1 on the first file and is still run on the second.
\<close>

theorem formatter_fails_fast_linter_continues_witness:
  "formatter_argv ''yapf'' (Path ''a.py'') [\<lparr>start = 3, stop = 7, step = 1\<rparr>] ''-''
     = Inr [''yapf'', ''a.py'', ''-i'', ''--lines=3-7''] \<and>
   yapf_fails [] ([''yapf'', ''a.py'', ''-i'', ''--lines=3-7''], None) = Exited 2 (Some []) \<and>
   run_formatter yapf_fails ''yapf'' sample_changes PY_EXTENSIONS ''-'' start_world
     = (Inl (CalledProcessError 2),
        \<lparr>calls = [([''yapf'', ''a.py'', ''-i'', ''--lines=3-7''], None)], printed = []\<rparr>) \<and>
   run_checkers yapf_fails (no_flags\<lparr>yapf := Some ''yapf'', flake8 := Some ''flake8''\<rparr>)
       sample_changes start_world
     = (Inl (CalledProcessError 2),
        \<lparr>calls = [([''yapf'', ''a.py'', ''-i'', ''--lines=3-7''], None)], printed = []\<rparr>) \<and>
   run_checkers (all_exit 3) (no_flags\<lparr>clang_format := Some ''clang-format'', flake8 := Some ''flake8''\<rparr>)
       sample_changes start_world
     = (Inl (CalledProcessError 3),
        \<lparr>calls = [([''clang-format'', ''d.cpp'', ''-i'', ''--lines=1:3''], None)], printed = []\<rparr>) \<and>
   yapf_fails [] ([''flake8'', ''a.py''], None) = Exited 1 (Some []) \<and>
   run_flake8 yapf_fails ''flake8'' sample_changes start_world
     = (Inr (),
        \<lparr>calls = [([''flake8'', ''a.py''], None), ([''flake8'', ''c.py''], None)], printed = []\<rparr>)"
proof -
  let ?a = "Path ''a.py''" and ?ra = "[\<lparr>start = 3, stop = 7, step = 1\<rparr>]"
  let ?post = "[(Path ''c.py'', [\<lparr>start = 9, stop = 10, step = 1\<rparr>])]"
  let ?wa = "\<lparr>calls = [([''yapf'', ''a.py'', ''-i'', ''--lines=3-7''], None)], printed = []\<rparr>"
  let ?wd = "\<lparr>calls = [([''clang-format'', ''d.cpp'', ''-i'', ''--lines=1:3''], None)], printed = []\<rparr>"
  let ?a1 = "no_flags\<lparr>yapf := Some ''yapf'', flake8 := Some ''flake8''\<rparr>"
  let ?a2 = "no_flags\<lparr>clang_format := Some ''clang-format'', flake8 := Some ''flake8''\<rparr>"
  have e1: "yapf_fails [] ([''yapf'', ''a.py'', ''-i'', ''--lines=3-7''], None) = Exited 2 (Some [])"
    and e2: "yapf_fails [] ([''flake8'', ''a.py''], None) = Exited 1 (Some [])"
    by code_simp+
  have f1: "filter (\<lambda>t. suffix (fst t) \<in> set PY_EXTENSIONS) sample_changes = [] @ (?a, ?ra) # ?post"
    by code_simp
  have f2: "run_formatter_files yapf_fails ''yapf'' ''-'' [] start_world = (Inr (), start_world)"
    by simp
  let ?argv = "[''yapf'', ''a.py'', ''-i'', ''--lines=3-7'']"
  have f0: "formatter_argv ''yapf'' ?a ?ra ''-'' = Inr ?argv"
    by code_simp
  have f3: "yapf_fails (calls start_world) (?argv, None) = Exited 2 (Some [])"
    by code_simp
  have f4: "(2::int) \<noteq> 0"
    by simp
  have f5: "start_world\<lparr>calls := calls start_world @ [(?argv, None)]\<rparr> = ?wa"
    by code_simp
  from formatter_fails_fast_linter_continues [of PY_EXTENSIONS sample_changes "[]" ?a ?ra ?post
      yapf_fails "''yapf''" "''-''" start_world start_world ?argv 2 "Some []"] f1 f2 f0 f3 f4
  have c1: "run_formatter yapf_fails ''yapf'' sample_changes PY_EXTENSIONS ''-'' start_world
            = (Inl (CalledProcessError 2),
               start_world\<lparr>calls := calls start_world @ [(?argv, None)]\<rparr>)"
    by blast
  have g1: "run_if (clang_format ?a1)
              (\<lambda>cmd. run_formatter yapf_fails cmd sample_changes CPP_EXTENSIONS '':'') start_world
            = (Inr (), start_world)"
    by code_simp
  have g2: "run_if (yapf ?a1)
              (\<lambda>cmd. run_formatter yapf_fails cmd sample_changes PY_EXTENSIONS ''-'') start_world
            = (Inl (CalledProcessError 2), ?wa)"
    by code_simp
  from formatter_fails_fast_linter_continues [of _ sample_changes _ _ _ _ yapf_fails _ _
      start_world start_world _ _ _ ?a1 "CalledProcessError 2" ?wa] g1 g2
  have c2: "run_checkers yapf_fails ?a1 sample_changes start_world = (Inl (CalledProcessError 2), ?wa)"
    by blast
  have g3: "run_if (clang_format ?a2)
              (\<lambda>cmd. run_formatter (all_exit 3) cmd sample_changes CPP_EXTENSIONS '':'') start_world
            = (Inl (CalledProcessError 3), ?wd)"
    by code_simp
  from formatter_fails_fast_linter_continues [of _ sample_changes _ _ _ _ "all_exit 3" _ _
      start_world _ _ _ _ ?a2 "CalledProcessError 3" ?wd] g3
  have c3: "run_checkers (all_exit 3) ?a2 sample_changes start_world = (Inl (CalledProcessError 3), ?wd)"
    by blast
  have l1: "\<forall>h c. yapf_fails h c \<noteq> NotStarted"
    by (simp add: yapf_fails_def scripted_def)
  have l2: "start_world\<lparr>calls := calls start_world @ map (\<lambda>fn. ([''flake8'', str_path fn], None))
              (filter (\<lambda>fn. suffix fn \<in> set PY_EXTENSIONS) (map fst sample_changes))\<rparr>
            = \<lparr>calls = [([''flake8'', ''a.py''], None), ([''flake8'', ''c.py''], None)], printed = []\<rparr>"
    by code_simp
  from formatter_fails_fast_linter_continues [of _ sample_changes _ _ _ _ yapf_fails "''flake8''" _
      start_world] l1
  have c4: "run_flake8 yapf_fails ''flake8'' sample_changes start_world
            = (Inr (), start_world\<lparr>calls := calls start_world @ map (\<lambda>fn. ([''flake8'', str_path fn], None))
                (filter (\<lambda>fn. suffix fn \<in> set PY_EXTENSIONS) (map fst sample_changes))\<rparr>)"
    by blast
  from f0 e1 e2 c1 c2 c3 c4 show ?thesis
    by (simp only: f5 l2)
qed

section \<open>The exit status\<close>

text \<open>
  Claim C5, as amended. The exit status is 1, after the message is printed, when
  \<^verbatim>\<open>git rev-parse\<close> exits with a non-zero code (the repository root cannot be
  determined); it is 1, not the code of the formatter, when an invocation of a
  formatter exits with a non-zero code \<open>c\<close>, since the \<^verbatim>\<open>CalledProcessError\<close> is caught
  nowhere; and it is 0 when \<^verbatim>\<open>main\<close> returns. Otherwise it is not always 0: it is 2
  when \<^verbatim>\<open>argparse\<close> rejects the command line, 0 when it prints the help, and 1 whenever
  another step of \<^verbatim>\<open>main\<close> raises, a failing git command of \<^verbatim>\<open>get_diff\<close> for one.
\<close>

theorem exit_status_main:
  "exit_status (fst (main env p w))
   = (case p of Usage \<Rightarrow> 2 | Help \<Rightarrow> 0
      | Namespace ns \<Rightarrow> if isl (fst (main env p w)) then 1 else 0) \<and>
   (p = Namespace ns \<longrightarrow>
    env (calls w) ([''git'', ''rev-parse'', ''--show-toplevel''], None) = Exited rc out \<longrightarrow>
    rc \<noteq> 0 \<longrightarrow>
      fst (main env p w) = Inl (SystemExit 1) \<and>
      printed (snd (main env p w))
      = printed (snd (parse_args p w)) @
        [''Failed to determine git root directory. Is this a git repository?'']) \<and>
   (parse_args p w = (Inr a, w0) \<longrightarrow> find_repo_root env w0 = (Inr repo_root, w1) \<longrightarrow>
    get_diff env repo_root (ref a) w1 = (Inr diff, w2) \<longrightarrow>
    parse_diff diff (prefix a) = Inr m \<longrightarrow>
    run_checkers env a m w2 = (Inl (CalledProcessError c), w3) \<longrightarrow>
      main env p w = (Inl (CalledProcessError c), w3) \<and> exit_status (fst (main env p w)) = 1)"
proof -
  have status: "exit_status (fst (main env p w))
      = (case p of Usage \<Rightarrow> 2 | Help \<Rightarrow> 0
         | Namespace ns \<Rightarrow> if isl (fst (main env p w)) then 1 else 0)"
  proof (cases p)
    case (Namespace ns')
    show ?thesis
    proof (cases "fst (main env p w)")
      case (Inl e)
      then have "main env (Namespace ns') w = (Inl e, snd (main env p w))"
        unfolding Namespace by (cases "main env (Namespace ns') w") simp
      then have "exit_status (Inl e) = 1"
        by (rule main_error)
      with Inl Namespace show ?thesis by simp
    next
      case (Inr u)
      with Namespace show ?thesis by (simp add: exit_status_def)
    qed
  next
    case Usage
    then show ?thesis by (simp add: main_def parse_args_def exit_status_def)
  next
    case Help
    then show ?thesis by (simp add: main_def parse_args_def exit_status_def)
  qed
  have no_root: "fst (main env p w) = Inl (SystemExit 1) \<and>
      printed (snd (main env p w))
      = printed (snd (parse_args p w)) @
        [''Failed to determine git root directory. Is this a git repository?'']"
    if p: "p = Namespace ns"
      and "env (calls w) ([''git'', ''rev-parse'', ''--show-toplevel''], None) = Exited rc out"
      and "rc \<noteq> 0"
  proof -
    obtain a' w' where pa: "parse_args p w = (Inr a', w')" and "calls w' = calls w"
      unfolding p using parse_args_namespace by blast
    with that have "find_repo_root env w'
         = (Inl (SystemExit 1),
            print ''Failed to determine git root directory. Is this a git repository?''
              (w'\<lparr>calls := calls w' @ [([''git'', ''rev-parse'', ''--show-toplevel''], None)]\<rparr>))"
      by (simp add: find_repo_root_fails)
    with pa show ?thesis by (simp add: main_def print_def)
  qed
  have formatter: "main env p w = (Inl (CalledProcessError c), w3) \<and>
      exit_status (fst (main env p w)) = 1"
    if "parse_args p w = (Inr a, w0)" and "find_repo_root env w0 = (Inr repo_root, w1)"
      and "get_diff env repo_root (ref a) w1 = (Inr diff, w2)"
      and "parse_diff diff (prefix a) = Inr m"
      and "run_checkers env a m w2 = (Inl (CalledProcessError c), w3)"
    using that by (simp add: main_def exit_status_def)
  from status no_root formatter show ?thesis by blast
qed

text \<open>
  An instance: outside a repository the status is 1 and both messages are printed; and
  with \<^verbatim>\<open>--cpp\<close> and a clang-format that exits with 2 the status is 1.
\<close>

theorem exit_status_main_witness:
  "no_repo (calls start_world) ([''git'', ''rev-parse'', ''--show-toplevel''], None)
     = Exited 128 (Some []) \<and>
   fst (main no_repo (Namespace no_flags) start_world) = Inl (SystemExit 1) \<and>
   exit_status (fst (main no_repo (Namespace no_flags) start_world)) = 1 \<and>
   printed (snd (main no_repo (Namespace no_flags) start_world))
     = [''WARNING no checkers are enabled.'',
        ''Failed to determine git root directory. Is this a git repository?''] \<and>
   fst (run_checkers (all_exit 2) (no_flags\<lparr>cpp := True, clang_format := Some ''clang-format''\<rparr>)
          sample_changes start_world) = Inl (CalledProcessError 2) \<and>
   fst (main (all_exit 2) (Namespace (no_flags\<lparr>cpp := True\<rparr>)) start_world)
     = Inl (CalledProcessError 2) \<and>
   exit_status (fst (main (all_exit 2) (Namespace (no_flags\<lparr>cpp := True\<rparr>)) start_world)) = 1"
proof -
  let ?git = "([''git'', ''rev-parse'', ''--show-toplevel''], None)"
  let ?p0 = "Namespace no_flags"
  have h1: "no_repo (calls start_world) ?git = Exited 128 (Some [])" "(128::int) \<noteq> 0"
    by (simp_all add: no_repo_def)
  have p1: "printed (snd (parse_args ?p0 start_world)) = [''WARNING no checkers are enabled.'']"
    by code_simp
  from exit_status_main [of no_repo ?p0 start_world no_flags 128 "Some []"] h1
  have a: "exit_status (fst (main no_repo ?p0 start_world))
           = (case ?p0 of Usage \<Rightarrow> 2 | Help \<Rightarrow> 0
              | Namespace ns \<Rightarrow> if isl (fst (main no_repo ?p0 start_world)) then 1 else 0)"
    and b: "fst (main no_repo ?p0 start_world) = Inl (SystemExit 1)"
    and c: "printed (snd (main no_repo ?p0 start_world))
            = printed (snd (parse_args ?p0 start_world)) @
              [''Failed to determine git root directory. Is this a git repository?'']"
    by blast+
  let ?p = "Namespace (no_flags\<lparr>cpp := True\<rparr>)"
  let ?a = "no_flags\<lparr>cpp := True, clang_format := Some ''clang-format''\<rparr>"
  let ?w1 = "snd (find_repo_root (all_exit 2) start_world)"
  let ?w2 = "snd (get_diff (all_exit 2) ''/repo'' ''main'' ?w1)"
  let ?w3 = "snd (run_checkers (all_exit 2) ?a sample_changes ?w2)"
  have h2: "parse_args ?p start_world = (Inr ?a, start_world)"
    by code_simp
  have h3: "find_repo_root (all_exit 2) start_world = (Inr ''/repo'', ?w1)"
    by code_simp
  have h4: "get_diff (all_exit 2) ''/repo'' (ref ?a) ?w1 = (Inr (strip sample_diff), ?w2)"
    by code_simp
  have h5: "parse_diff (strip sample_diff) (prefix ?a) = Inr sample_changes"
    by code_simp
  have h6: "run_checkers (all_exit 2) ?a sample_changes ?w2 = (Inl (CalledProcessError 2), ?w3)"
    by code_simp
  have h7: "fst (run_checkers (all_exit 2) ?a sample_changes start_world) = Inl (CalledProcessError 2)"
    by code_simp
  from exit_status_main [of "all_exit 2" ?p start_world _ _ _ ?a start_world "''/repo''" ?w1
      "strip sample_diff" ?w2 sample_changes 2 ?w3] h2 h3 h4 h5 h6
  have d: "main (all_exit 2) ?p start_world = (Inl (CalledProcessError 2), ?w3)"
    and e: "exit_status (fst (main (all_exit 2) ?p start_world)) = 1"
    by blast+
  from h1(1) a b c p1 d e h7 show ?thesis by simp
qed

text \<open>
  C5 as stated fails: when clang-format exits with 2 the exit status of the program
  is 1, not 2; and where the root is found and no formatter fails the status is not
  always 0: it is 1 when \<^verbatim>\<open>git merge-base\<close> fails and 2 when \<^verbatim>\<open>argparse\<close> rejects the
  command line.
\<close>

theorem exit_status_main_counterexample:
  "fst (main (all_exit 2) (Namespace (no_flags\<lparr>cpp := True\<rparr>)) start_world)
     = Inl (CalledProcessError 2) \<and>
   exit_status (fst (main (all_exit 2) (Namespace (no_flags\<lparr>cpp := True\<rparr>)) start_world)) = 1 \<and>
   fst (main no_merge_base (Namespace no_flags) start_world) = Inl (CalledProcessError 128) \<and>
   exit_status (fst (main no_merge_base (Namespace no_flags) start_world)) = 1 \<and>
   exit_status (fst (main (all_exit 0) Usage start_world)) = 2"
  by code_simp

section \<open>The warning about disabled checkers\<close>

text \<open>
  The warning of \<^verbatim>\<open>parse_args\<close> depends on four of the five checker options.
\<close>

lemma parse_args_warning:
  "printed (snd (parse_args (Namespace a) w))
   = (if py a \<or> truthy (yapf a) \<or> truthy (flake8 a) \<or> cpp a then printed w
      else printed w @ [''WARNING no checkers are enabled.''])"
  by (simp add: parse_args_def Let_def print_def)

text \<open>
  Claim C6, evaluated. The test before the warning reads \<^verbatim>\<open>args.py\<close>, \<^verbatim>\<open>args.yapf\<close>,
  \<^verbatim>\<open>args.flake8\<close> and \<^verbatim>\<open>args.cpp\<close> but not \<^verbatim>\<open>args.clang_format\<close>. With \<^verbatim>\<open>--clang-format\<close> as
  the only flag the warning is printed although a checker is enabled, and
  clang-format is then run.
\<close>

theorem warning_although_clang_format_runs:
  "parse_args (Namespace (no_flags\<lparr>clang_format := Some ''clang-format''\<rparr>)) start_world
     = (Inr (no_flags\<lparr>clang_format := Some ''clang-format''\<rparr>),
        \<lparr>calls = [], printed = [''WARNING no checkers are enabled.'']\<rparr>) \<and>
   main (all_exit 0) (Namespace (no_flags\<lparr>clang_format := Some ''clang-format''\<rparr>)) start_world
     = (Inr (),
        \<lparr>calls =
           [([''git'', ''rev-parse'', ''--show-toplevel''], None),
            ([''git'', ''branch'', ''--show-current''], Some ''/repo''),
            ([''git'', ''merge-base'', ''main'', ''topic''], Some ''/repo''),
            ([''git'', ''diff'', ''-U0'', ''--no-color'', ''--relative'', ''0a1b2c3''], Some ''/repo''),
            ([''clang-format'', ''d.cpp'', ''-i'', ''--lines=1:3''], None)],
         printed = [''WARNING no checkers are enabled.'']\<rparr>)"
  by code_simp

end
